theory Spec2Isabelle
  imports Main "HOL-Library.Word"
begin

section \<open>JavaScript strings\<close>

text \<open>
  A JavaScript string is a sequence of 16-bit code units. String literals of the source
  are ASCII; \<open>lit\<close> turns an ASCII literal into code units.
\<close>

type_synonym jsstring = "16 word list"

definition lit :: "string \<Rightarrow> jsstring" where
  "lit s = map (\<lambda>c. word_of_nat (of_char c)) s"

text \<open>\<^verbatim>\<open>String.prototype.includes\<close>: the pattern occurs somewhere in the string.\<close>

fun starts_with :: "jsstring \<Rightarrow> jsstring \<Rightarrow> bool" where
  "starts_with s [] = True"
| "starts_with [] (p # ps) = False"
| "starts_with (x # xs) (p # ps) = (x = p \<and> starts_with xs ps)"

fun str_includes :: "jsstring \<Rightarrow> jsstring \<Rightarrow> bool" where
  "str_includes [] p = (p = [])"
| "str_includes (x # xs) p = (starts_with (x # xs) p \<or> str_includes xs p)"

text \<open>\<^verbatim>\<open>Array.prototype.join\<close> on an array of strings.\<close>

fun join :: "jsstring \<Rightarrow> jsstring list \<Rightarrow> jsstring" where
  "join sep [] = []"
| "join sep [x] = x"
| "join sep (x # y # ys) = x @ sep @ join sep (y # ys)"

text \<open>
  \<^verbatim>\<open>String.prototype.trim\<close> strips the WhiteSpace and LineTerminator code units of
  ECMAScript from both ends.
\<close>

definition is_white_space :: "16 word \<Rightarrow> bool" where
  "is_white_space c \<longleftrightarrow>
     c \<in> {0x0009, 0x000A, 0x000B, 0x000C, 0x000D, 0x0020, 0x00A0, 0x1680,
          0x2028, 0x2029, 0x202F, 0x205F, 0x3000, 0xFEFF}
     \<or> (0x2000 \<le> c \<and> c \<le> 0x200A)"

definition trim :: "jsstring \<Rightarrow> jsstring" where
  "trim s = rev (dropWhile is_white_space (rev (dropWhile is_white_space s)))"

section \<open>Errors and platform faults\<close>

text \<open>
  A fault is the error object with which a call of the chat platform's SDK rejects: its
  \<^verbatim>\<open>code\<close> (a number, or none) and its \<^verbatim>\<open>message\<close>. The values the program
  itself raises are \<^verbatim>\<open>new Error(msg)\<close> and the runtime's TypeError for a property read
  on \<^verbatim>\<open>undefined\<close> or \<^verbatim>\<open>null\<close>.
\<close>

datatype fault = Fault (fault_code: "int option") (fault_message: jsstring)

datatype exn = PlatformFault fault | Error jsstring | TypeError jsstring

fun exn_message :: "exn \<Rightarrow> jsstring" where
  "exn_message (PlatformFault f) = fault_message f"
| "exn_message (Error m) = m"
| "exn_message (TypeError m) = m"

section \<open>Configuration constants (both programs)\<close>

abbreviation BOT_TOKEN :: jsstring where "BOT_TOKEN \<equiv> lit ''BOT_TOKEN''"
abbreviation DM_USER_ID :: jsstring where "DM_USER_ID \<equiv> lit ''DM_USER_ID''"

definition REQUIRED_ENV_VARS :: "jsstring list" where
  "REQUIRED_ENV_VARS = [BOT_TOKEN, DM_USER_ID]"

text \<open>Exit codes of notification-bot.js.\<close>

definition NB_SUCCESS :: nat where "NB_SUCCESS = 0"
definition NB_NO_MESSAGE :: nat where "NB_NO_MESSAGE = 1"
definition NB_MISSING_ENV :: nat where "NB_MISSING_ENV = 2"
definition NB_DISCORD_ERROR :: nat where "NB_DISCORD_ERROR = 3"
definition NB_STDIN_ERROR :: nat where "NB_STDIN_ERROR = 4"

text \<open>Exit codes and rate-limit settings of purge-conversation.js.\<close>

definition PC_SUCCESS :: nat where "PC_SUCCESS = 0"
definition PC_MISSING_ENV :: nat where "PC_MISSING_ENV = 1"
definition PC_DISCORD_ERROR :: nat where "PC_DISCORD_ERROR = 2"
definition PC_RATE_LIMIT :: nat where "PC_RATE_LIMIT = 3"
definition DELAY_MS :: nat where "DELAY_MS = 1000"
definition BATCH_SIZE :: nat where "BATCH_SIZE = 50"

section \<open>Environment validation\<close>

text \<open>
  \<^verbatim>\<open>process.env\<close> maps a variable name to its value, or to nothing when the variable is
  not set. \<^verbatim>\<open>!process.env[varName]\<close> holds for an unset variable and for the empty string.
\<close>

type_synonym environment = "jsstring \<Rightarrow> jsstring option"

definition unset :: "jsstring option \<Rightarrow> bool" where
  "unset v = (case v of None \<Rightarrow> True | Some s \<Rightarrow> s = [])"

definition missingVars :: "environment \<Rightarrow> jsstring list" where
  "missingVars env = filter (\<lambda>varName. unset (env varName)) REQUIRED_ENV_VARS"

text \<open>\<^verbatim>\<open>validateEnvironment\<close> has the same text in both programs.\<close>

definition validateEnvironment :: "environment \<Rightarrow> exn + unit" where
  "validateEnvironment env =
     (if length (missingVars env) > 0
      then Inl (Error (lit ''Missing required environment variables: ''
                        @ join (lit '', '') (missingVars env)))
      else Inr ())"

section \<open>Reading standard input (notification-bot.js)\<close>

text \<open>
  The stream delivers a sequence of events to the three listeners. The promise returned
  by \<^verbatim>\<open>readStdin\<close> settles once: \<open>resolve\<close> and \<open>reject\<close> on a settled promise
  change nothing.
\<close>

datatype stdin_event = Data jsstring | End | StreamError jsstring

datatype 'a promise = Pending | Fulfilled 'a | Rejected exn

fun resolve :: "'a \<Rightarrow> 'a promise \<Rightarrow> 'a promise" where
  "resolve v Pending = Fulfilled v"
| "resolve v p = p"

fun reject :: "exn \<Rightarrow> 'a promise \<Rightarrow> 'a promise" where
  "reject e Pending = Rejected e"
| "reject e p = p"

record stdin_state =
  input :: jsstring
  settled :: "jsstring promise"

fun on_event :: "stdin_state \<Rightarrow> stdin_event \<Rightarrow> stdin_state" where
  "on_event s (Data chunk) = s\<lparr>input := input s @ chunk\<rparr>"
| "on_event s End =
     (let trimmedInput = trim (input s);
          p = (if trimmedInput = []
               then reject (Error (lit ''No message input received'')) (settled s)
               else settled s)
      in s\<lparr>settled := resolve trimmedInput p\<rparr>)"
| "on_event s (StreamError m) =
     s\<lparr>settled := reject (Error (lit ''Failed to read from stdin: '' @ m)) (settled s)\<rparr>"

definition readStdin :: "stdin_event list \<Rightarrow> jsstring promise" where
  "readStdin events = settled (foldl on_event \<lparr>input = [], settled = Pending\<rparr> events)"

section \<open>The chat platform and the observable events of a run\<close>

text \<open>
  The platform is an external collaborator. A run sees it through the outcome of each
  call (whether the user lookup yields a user, and which calls reject with a fault) and
  through the signals it sends while the client is connected. Message identifiers are
  snowflakes, modelled by the number they denote (a smaller number is an older message);
  as strings they are never empty, so \<^verbatim>\<open>if (lastMessageId)\<close> holds exactly when the
  cursor has been set.
\<close>

record message =
  msg_id :: nat
  author_id :: nat

datatype user_lookup = UserFound | UserNull | UserFault fault

record platform =
  bot_id :: nat
  users_fetch :: user_lookup
  send_fault :: "jsstring \<Rightarrow> fault option"
  create_dm_fault :: "fault option"
  fetch_fault :: "nat option \<Rightarrow> fault option"
  delete_fault :: "nat \<Rightarrow> fault option"

datatype console_line =
    LoggedInAs
  | DeletedMessageID nat
  | Finished nat
  | FailedToDelete nat jsstring
  | Message jsstring
  | ErrorMessage jsstring
  | ClientErrorMessage jsstring

datatype event =
    CreateClient
  | Login "jsstring option"
  | UsersFetch "jsstring option"
  | CreateDM
  | Send jsstring
  | Fetch nat "nat option"
  | Delete nat
  | Delay nat
  | ConsoleLog console_line
  | ConsoleError console_line
  | Destroy
  | Exit nat

section \<open>The event-driven part of a run\<close>

text \<open>
  Once \<^verbatim>\<open>main\<close> has constructed the client, registered its two listeners and called
  \<^verbatim>\<open>client.login\<close>, the run is driven by what the platform does next, in the order in
  which it does it:
  \<^item> \<open>Ready\<close>: the ready signal. The listener is registered with \<^verbatim>\<open>once\<close>: it runs
    for the first signal only.
  \<^item> \<open>ClientError f\<close>: the client emits \<^verbatim>\<open>error\<close>. The listener is registered with
    \<^verbatim>\<open>on\<close> and stays registered for the whole run: it runs for every such signal,
    before the ready signal as well as while the ready handler is suspended.
  \<^item> \<open>LoginRejected f\<close>: the login fails with the fault \<open>f\<close>; this can only happen
    before the ready signal, and once. The SDK (discord.js, not code of the repository)
    tears the client down itself in \<^verbatim>\<open>client.login\<close> and awaits that teardown before
    it rejects the promise; only then the \<^verbatim>\<open>catch\<close> block of \<^verbatim>\<open>main\<close> runs.
  \<^item> \<open>CallReturns\<close>: the platform call that the ready handler awaits returns, and the
    handler runs on to its next \<^verbatim>\<open>await\<close>.
  \<^item> \<open>DestroyReturns k\<close>: of the teardowns that are awaited, by a handler or by the
    SDK's login, the one with index \<open>k\<close> (oldest first) returns, and what waits for it
    runs: a handler calls \<^verbatim>\<open>process.exit\<close>; the login rejects, and the \<^verbatim>\<open>catch\<close>
    block of \<^verbatim>\<open>main\<close> logs and calls \<^verbatim>\<open>process.exit\<close>.
  A handler runs without interruption from one \<^verbatim>\<open>await\<close> to the next; every call of
  the platform in the two programs is awaited. The event \<open>Destroy\<close> stands for a
  teardown of the client, called by a handler or by the SDK's login.
\<close>

datatype signal = Ready | ClientError fault | LoginRejected fault | CallReturns | DestroyReturns nat

fun awaited :: "event \<Rightarrow> bool" where
  "awaited (UsersFetch userId) = True"
| "awaited CreateDM = True"
| "awaited (Send text) = True"
| "awaited (Fetch limit before) = True"
| "awaited (Delete i) = True"
| "awaited (Delay ms) = True"
| "awaited Destroy = True"
| "awaited e = False"

text \<open>What a handler does up to and including its next awaited call, and what is left.\<close>

fun next_segment :: "event list \<Rightarrow> event list \<times> event list" where
  "next_segment [] = ([], [])"
| "next_segment (e # es) =
     (if awaited e then ([e], es)
      else (case next_segment es of (seg, rest) \<Rightarrow> (e # seg, rest)))"

text \<open>
  What distinguishes the two programs here: the ready handler, given by the events of its
  undisturbed run up to its call of \<^verbatim>\<open>client.destroy()\<close> and by the code with which
  it then exits; the exit code of the error listener; and the \<^verbatim>\<open>catch\<close> block of
  \<^verbatim>\<open>main\<close>.
\<close>

record program =
  ready_handler :: "event list \<times> nat"
  on_error_exit :: nat
  main_catch :: "exn \<Rightarrow> event list"

text \<open>
  The state of the connected client: what is left of the ready handler's run (\<open>None\<close>
  before the ready signal); whether the login has failed; for each teardown that is
  awaited (oldest first), the events that follow its return; the events so far; and
  whether the process has exited.
\<close>

record session =
  pending :: "event list option"
  login_failed :: bool
  waiting :: "event list list"
  emitted :: "event list"
  exited :: bool

definition connected :: session where
  "connected =
     \<lparr>pending = None, login_failed = False, waiting = [], emitted = [], exited = False\<rparr>"

text \<open>
  The ready handler runs to its next \<^verbatim>\<open>await\<close>. When nothing is left after it, that
  call was its \<^verbatim>\<open>client.destroy()\<close>, and the handler joins those that wait for it.
\<close>

definition advance :: "program \<Rightarrow> event list \<Rightarrow> session \<Rightarrow> session" where
  "advance G es s =
     (case next_segment es of
        (seg, rest) \<Rightarrow>
          s\<lparr>pending := Some rest,
            emitted := emitted s @ seg,
            waiting := (if rest = [] then waiting s @ [[Exit (snd (ready_handler G))]]
                        else waiting s)\<rparr>)"

fun deliver :: "program \<Rightarrow> session \<Rightarrow> signal \<Rightarrow> session" where
  "deliver G s Ready =
     (if exited s \<or> login_failed s then s
      else (case pending s of
              None \<Rightarrow> advance G (fst (ready_handler G)) s
            | Some rest \<Rightarrow> s))"
| "deliver G s CallReturns =
     (if exited s then s
      else (case pending s of
              None \<Rightarrow> s
            | Some [] \<Rightarrow> s
            | Some (e # es) \<Rightarrow> advance G (e # es) s))"
| "deliver G s (ClientError f) =
     (if exited s then s
      else s\<lparr>emitted := emitted s @ [ConsoleError (ClientErrorMessage (fault_message f)), Destroy],
             waiting := waiting s @ [[Exit (on_error_exit G)]]\<rparr>)"
| "deliver G s (DestroyReturns k) =
     (if exited s \<or> length (waiting s) \<le> k then s
      else s\<lparr>emitted := emitted s @ waiting s ! k, exited := True\<rparr>)"
| "deliver G s (LoginRejected f) =
     (if exited s \<or> login_failed s then s
      else (case pending s of
              None \<Rightarrow> s\<lparr>emitted := emitted s @ [Destroy],
                        waiting := waiting s @ [main_catch G (PlatformFault f)],
                        login_failed := True\<rparr>
            | Some rest \<Rightarrow> s))"

text \<open>
  When no further signal arrives: the oldest awaited teardown returns; when none is
  awaited, the ready handler, if it has started, runs undisturbed to its end. A session
  that never receives a signal never exits.
\<close>

definition finish :: "program \<Rightarrow> session \<Rightarrow> event list" where
  "finish G s =
     (if exited s then emitted s
      else (case waiting s of
              after # others \<Rightarrow> emitted s @ after
            | [] \<Rightarrow>
                (case pending s of
                   None \<Rightarrow> emitted s
                 | Some rest \<Rightarrow> emitted s @ rest @ [Exit (snd (ready_handler G))])))"

definition session_after :: "program \<Rightarrow> signal list \<Rightarrow> session" where
  "session_after G signals = foldl (deliver G) connected signals"

section \<open>The sender (notification-bot.js)\<close>

definition template :: "jsstring option \<Rightarrow> jsstring" where
  "template v = (case v of None \<Rightarrow> lit ''undefined'' | Some s \<Rightarrow> s)"

definition sendDM :: "platform \<Rightarrow> environment \<Rightarrow> jsstring \<Rightarrow> exn option \<times> event list" where
  "sendDM P env message =
     (let userId = env DM_USER_ID;
          failed = (\<lambda>e. Some (Error (lit ''Failed to send DM: '' @ exn_message e)))
      in case users_fetch P of
           UserFault f \<Rightarrow> (failed (PlatformFault f), [UsersFetch userId])
         | UserNull \<Rightarrow>
             (failed (Error (lit ''User '' @ template userId @ lit '' not found'')),
              [UsersFetch userId])
         | UserFound \<Rightarrow>
             (case send_fault P message of
                Some f \<Rightarrow> (failed (PlatformFault f), [UsersFetch userId, Send message])
              | None \<Rightarrow> (None, [UsersFetch userId, Send message])))"

text \<open>The \<^verbatim>\<open>catch\<close> block of the sender's \<^verbatim>\<open>main\<close>.\<close>

definition sender_catch :: "exn \<Rightarrow> event list" where
  "sender_catch e =
     [ConsoleError (Message (exn_message e)),
      Exit (if str_includes (exn_message e) (lit ''environment variables'') then NB_MISSING_ENV
            else if str_includes (exn_message e) (lit ''stdin'') then NB_STDIN_ERROR
            else NB_DISCORD_ERROR)]"

text \<open>
  The listener of the ready signal, by its undisturbed run up to its call of
  \<^verbatim>\<open>client.destroy()\<close> and the exit code that follows.
\<close>

definition sender_handler :: "platform \<Rightarrow> environment \<Rightarrow> jsstring \<Rightarrow> event list \<times> nat" where
  "sender_handler P env message =
     (case sendDM P env message of
        (None, calls) \<Rightarrow> (ConsoleLog LoggedInAs # calls @ [Destroy], NB_SUCCESS)
      | (Some e, calls) \<Rightarrow>
          (ConsoleLog LoggedInAs # calls @ [ConsoleError (Message (exn_message e)), Destroy],
           NB_DISCORD_ERROR))"

definition sender_program :: "platform \<Rightarrow> environment \<Rightarrow> jsstring \<Rightarrow> program" where
  "sender_program P env message =
     \<lparr>ready_handler = sender_handler P env message, on_error_exit = NB_DISCORD_ERROR,
      main_catch = sender_catch\<rparr>"

text \<open>
  A run of the sender is the sequence of its observable events, given the signals of the
  platform. A run without an \<open>Exit\<close> event is one that waits for ever (standard input
  never ends, or no signal arrives).
\<close>

definition sender_main ::
  "environment \<Rightarrow> stdin_event list \<Rightarrow> platform \<Rightarrow> signal list \<Rightarrow> event list" where
  "sender_main env stdin P signals =
     (case validateEnvironment env of
        Inl e \<Rightarrow> sender_catch e
      | Inr _ \<Rightarrow>
          (case readStdin stdin of
             Pending \<Rightarrow> []
           | Rejected e \<Rightarrow> sender_catch e
           | Fulfilled message \<Rightarrow>
               [CreateClient, Login (env BOT_TOKEN)] @
               finish (sender_program P env message)
                 (session_after (sender_program P env message) signals)))"

section \<open>The purger (purge-conversation.js)\<close>

text \<open>
  Modelled from the spec: the platform's \<^verbatim>\<open>fetchMessages(before?, limit)\<close>, which is
  not code of the repository. The conversation is the list of its messages, newest first.
  A page is the first \<open>limit\<close> messages strictly older than \<open>before\<close> (from the
  newest when \<open>before\<close> is not given). A successful \<^verbatim>\<open>message.delete()\<close> removes
  the message from the conversation.
\<close>

definition older :: "message list \<Rightarrow> nat option \<Rightarrow> message list" where
  "older conv before =
     (case before of None \<Rightarrow> conv | Some c \<Rightarrow> filter (\<lambda>m. msg_id m < c) conv)"

definition fetchMessages :: "message list \<Rightarrow> nat option \<Rightarrow> nat \<Rightarrow> message list" where
  "fetchMessages conv before limit = take limit (older conv before)"

text \<open>\<^verbatim>\<open>Collection.last()\<close> is \<^verbatim>\<open>undefined\<close> on an empty collection.\<close>

fun collection_last :: "message list \<Rightarrow> message option" where
  "collection_last [] = None"
| "collection_last [m] = Some m"
| "collection_last (m # n # ms) = collection_last (n # ms)"

text \<open>
  The state of a purge run: the two local variables of \<^verbatim>\<open>deleteBotMessagesFromDM\<close>, the
  remote conversation, and the events so far.
\<close>

record purge_state =
  messagesDeleted :: nat
  lastMessageId :: "nat option"
  history :: "message list"
  trace :: "event list"

definition emit :: "event list \<Rightarrow> purge_state \<Rightarrow> purge_state" where
  "emit es s = s\<lparr>trace := trace s @ es\<rparr>"

text \<open>
  The \<^verbatim>\<open>for\<close> loop over a page. The result is the error that left the loop, if any,
  and the state reached.
\<close>

fun for_messages :: "platform \<Rightarrow> message list \<Rightarrow> purge_state \<Rightarrow> exn option \<times> purge_state" where
  "for_messages P [] s = (None, s)"
| "for_messages P (m # ms) s =
     (if author_id m = bot_id P then
        (case delete_fault P (msg_id m) of
           None \<Rightarrow>
             for_messages P ms
               (emit [Delete (msg_id m), ConsoleLog (DeletedMessageID (msg_id m)), Delay DELAY_MS]
                  (s\<lparr>messagesDeleted := messagesDeleted s + 1,
                     history := filter (\<lambda>x. msg_id x \<noteq> msg_id m) (history s)\<rparr>))
         | Some f \<Rightarrow>
             if fault_code f = Some 50001
             then (Some (Error (lit ''Rate limit exceeded'')), emit [Delete (msg_id m)] s)
             else for_messages P ms
                    (emit [Delete (msg_id m),
                           ConsoleError (FailedToDelete (msg_id m) (fault_message f))] s))
      else for_messages P ms s)"

text \<open>
  The cursor update \<^verbatim>\<open>lastMessageId = messages.last().id\<close>: reading \<^verbatim>\<open>id\<close> of
  \<^verbatim>\<open>undefined\<close> raises a TypeError.
\<close>

definition advance_cursor :: "message list \<Rightarrow> purge_state \<Rightarrow> exn + purge_state" where
  "advance_cursor messages s =
     (case collection_last messages of
        None \<Rightarrow> Inl (TypeError (lit ''Cannot read properties of undefined (reading 'id')''))
      | Some m \<Rightarrow> Inr (s\<lparr>lastMessageId := Some (msg_id m)\<rparr>))"

text \<open>One iteration of the \<^verbatim>\<open>while (true)\<close> loop.\<close>

datatype step = Break purge_state | Continue purge_state | Abort exn purge_state

definition iteration :: "platform \<Rightarrow> purge_state \<Rightarrow> step" where
  "iteration P s =
     (let s1 = emit [Fetch BATCH_SIZE (lastMessageId s)] s in
      case fetch_fault P (lastMessageId s) of
        Some f \<Rightarrow> Abort (PlatformFault f) s1
      | None \<Rightarrow>
          (let messages = fetchMessages (history s) (lastMessageId s) BATCH_SIZE in
           if length messages = 0 then Break s1
           else
             (case for_messages P messages s1 of
                (Some e, s2) \<Rightarrow> Abort e s2
              | (None, s2) \<Rightarrow>
                  (case advance_cursor messages s2 of
                     Inl e \<Rightarrow> Abort e s2
                   | Inr s3 \<Rightarrow> Continue s3))))"

text \<open>The loop itself; \<open>None\<close> stands for a loop that never ends.\<close>

partial_function (option) while_loop :: "platform \<Rightarrow> purge_state \<Rightarrow> (exn option \<times> purge_state) option" where
  "while_loop P s =
     (case iteration P s of
        Break s' \<Rightarrow> Some (None, s')
      | Abort e s' \<Rightarrow> Some (Some e, s')
      | Continue s' \<Rightarrow> while_loop P s')"

text \<open>
  \<^verbatim>\<open>deleteBotMessagesFromDM\<close>: the number of deleted messages, or the error of the outer
  \<^verbatim>\<open>catch\<close>, together with the state reached.
\<close>

definition failed_to_delete :: "exn \<Rightarrow> exn" where
  "failed_to_delete e = Error (lit ''Failed to delete messages: '' @ exn_message e)"

definition deleteBotMessagesFromDM ::
  "platform \<Rightarrow> jsstring option \<Rightarrow> purge_state \<Rightarrow> ((exn + nat) \<times> purge_state) option" where
  "deleteBotMessagesFromDM P userId s0 =
     (let s1 = emit [UsersFetch userId] (s0\<lparr>messagesDeleted := 0, lastMessageId := None\<rparr>) in
      case users_fetch P of
        UserFault f \<Rightarrow> Some (Inl (failed_to_delete (PlatformFault f)), s1)
      | UserNull \<Rightarrow>
          Some (Inl (failed_to_delete
                  (TypeError (lit ''Cannot read properties of null (reading 'createDM')''))), s1)
      | UserFound \<Rightarrow>
          (let s2 = emit [CreateDM] s1 in
           case create_dm_fault P of
             Some f \<Rightarrow> Some (Inl (failed_to_delete (PlatformFault f)), s2)
           | None \<Rightarrow>
               (case while_loop P s2 of
                  None \<Rightarrow> None
                | Some (Some e, s3) \<Rightarrow> Some (Inl (failed_to_delete e), s3)
                | Some (None, s3) \<Rightarrow> Some (Inr (messagesDeleted s3), s3))))"

text \<open>The \<^verbatim>\<open>catch\<close> block of the purger's \<^verbatim>\<open>main\<close>.\<close>

definition purger_catch :: "exn \<Rightarrow> event list" where
  "purger_catch e =
     [ConsoleError (Message (exn_message e)),
      Exit (if str_includes (exn_message e) (lit ''environment variables'') then PC_MISSING_ENV
            else PC_DISCORD_ERROR)]"

definition initial_state :: "message list \<Rightarrow> purge_state" where
  "initial_state conv = \<lparr>messagesDeleted = 0, lastMessageId = None, history = conv, trace = []\<rparr>"

text \<open>
  The listener of the ready signal, by its undisturbed run up to its call of
  \<^verbatim>\<open>client.destroy()\<close> and the exit code that follows.
\<close>

definition purger_handler ::
  "platform \<Rightarrow> environment \<Rightarrow> message list \<Rightarrow> (event list \<times> nat) option" where
  "purger_handler P env conv =
     (case deleteBotMessagesFromDM P (env DM_USER_ID) (initial_state conv) of
        None \<Rightarrow> None
      | Some (Inr deletedCount, s) \<Rightarrow>
          Some (ConsoleLog LoggedInAs # trace s @ [ConsoleLog (Finished deletedCount), Destroy],
                PC_SUCCESS)
      | Some (Inl e, s) \<Rightarrow>
          Some (ConsoleLog LoggedInAs # trace s
                  @ [ConsoleError (ErrorMessage (exn_message e)), Destroy],
                if str_includes (exn_message e) (lit ''Rate limit'')
                then PC_RATE_LIMIT else PC_DISCORD_ERROR))"

definition purger_program :: "event list \<times> nat \<Rightarrow> program" where
  "purger_program h =
     \<lparr>ready_handler = h, on_error_exit = PC_DISCORD_ERROR, main_catch = purger_catch\<rparr>"

text \<open>The identifiers on which \<^verbatim>\<open>message.delete()\<close> has been called.\<close>

fun delete_calls :: "event list \<Rightarrow> nat list" where
  "delete_calls [] = []"
| "delete_calls (Delete i # t) = i # delete_calls t"
| "delete_calls (e # t) = delete_calls t"

text \<open>
  The conversation a run leaves behind: a message is gone when \<^verbatim>\<open>message.delete()\<close>
  was called on it and the platform carries the call out, also when the process exits
  before the call returns.
\<close>

definition left_behind :: "platform \<Rightarrow> event list \<Rightarrow> message list \<Rightarrow> message list" where
  "left_behind P es conv =
     filter (\<lambda>x. \<not> (msg_id x \<in> set (delete_calls es) \<and> delete_fault P (msg_id x) = None)) conv"

text \<open>
  A run of the purger on a conversation, given the signals of the platform: the events of
  the run and the conversation it leaves behind.
\<close>

definition purger_main ::
  "environment \<Rightarrow> platform \<Rightarrow> signal list \<Rightarrow> message list
     \<Rightarrow> (event list \<times> message list) option" where
  "purger_main env P signals conv =
     (case validateEnvironment env of
        Inl e \<Rightarrow> Some (purger_catch e, conv)
      | Inr _ \<Rightarrow>
          (case purger_handler P env conv of
             None \<Rightarrow> None
           | Some h \<Rightarrow>
               (let es = finish (purger_program h) (session_after (purger_program h) signals)
                in Some ([CreateClient, Login (env BOT_TOKEN)] @ es, left_behind P es conv))))"

section \<open>Projections of a run and example inputs\<close>

fun is_fetch :: "event \<Rightarrow> bool" where
  "is_fetch (Fetch limit before) = True"
| "is_fetch e = False"

definition fetches :: "event list \<Rightarrow> nat" where
  "fetches t = length (filter is_fetch t)"

definition other_events :: "event list \<Rightarrow> event list" where
  "other_events t = filter (\<lambda>e. \<not> is_fetch e) t"

text \<open>The identifiers in the \<^verbatim>\<open>Deleted message ID\<close> lines of the log.\<close>

fun deleted_lines :: "event list \<Rightarrow> nat list" where
  "deleted_lines [] = []"
| "deleted_lines (ConsoleLog (DeletedMessageID i) # t) = i # deleted_lines t"
| "deleted_lines (e # t) = deleted_lines t"








text \<open>
  A signal is quiet when it is neither a client fault nor a failure of the login. A
  session is on script when it has seen the ready handler's undisturbed run so far, and
  nothing else.
\<close>

definition quiet :: "signal \<Rightarrow> bool" where
  "quiet sig \<longleftrightarrow> (case sig of ClientError f \<Rightarrow> False | LoginRejected f \<Rightarrow> False | _ \<Rightarrow> True)"

definition on_script :: "program \<Rightarrow> session \<Rightarrow> bool" where
  "on_script G s \<longleftrightarrow>
     \<not> login_failed s
     \<and> (if exited s then emitted s = fst (ready_handler G) @ [Exit (snd (ready_handler G))]
        else (case pending s of
                None \<Rightarrow> waiting s = [] \<and> emitted s = []
              | Some rest \<Rightarrow>
                  emitted s @ rest = fst (ready_handler G)
                  \<and> waiting s = (if rest = [] then [[Exit (snd (ready_handler G))]] else [])))"


text \<open>Newest first: identifiers strictly decrease along the conversation.\<close>

definition newest_first :: "message list \<Rightarrow> bool" where
  "newest_first conv = sorted_wrt (\<lambda>a b. msg_id b < msg_id a) conv"

definition by_bot :: "platform \<Rightarrow> message \<Rightarrow> bool" where
  "by_bot P m \<longleftrightarrow> author_id m = bot_id P"

definition rate_limited :: "platform \<Rightarrow> message \<Rightarrow> bool" where
  "rate_limited P m \<longleftrightarrow>
     author_id m = bot_id P \<and>
     (case delete_fault P (msg_id m) of None \<Rightarrow> False | Some f \<Rightarrow> fault_code f = Some 50001)"

definition deletable :: "platform \<Rightarrow> message \<Rightarrow> bool" where
  "deletable P m \<longleftrightarrow> author_id m = bot_id P \<and> delete_fault P (msg_id m) = None"

text \<open>The events of the loop body for one message that is not rate limited.\<close>

definition message_events :: "platform \<Rightarrow> message \<Rightarrow> event list" where
  "message_events P m =
     (if author_id m = bot_id P then
        (case delete_fault P (msg_id m) of
           None \<Rightarrow> [Delete (msg_id m), ConsoleLog (DeletedMessageID (msg_id m)), Delay DELAY_MS]
         | Some f \<Rightarrow> [Delete (msg_id m),
                      ConsoleError (FailedToDelete (msg_id m) (fault_message f))])
      else [])"

definition pages :: "nat \<Rightarrow> nat" where
  "pages n = (n + (BATCH_SIZE - 1)) div BATCH_SIZE"

text \<open>The rank of the cursor, for the termination argument.\<close>

definition cursor_rank :: "purge_state \<Rightarrow> nat" where
  "cursor_rank s = (case lastMessageId s of None \<Rightarrow> 0 | Some c \<Rightarrow> c)"

definition example_env :: environment where
  "example_env =
     (\<lambda>k. if k = BOT_TOKEN then Some (lit ''token'')
          else if k = DM_USER_ID then Some (lit ''42'') else None)"

definition example_platform :: platform where
  "example_platform =
     \<lparr>bot_id = 7, users_fetch = UserFound, send_fault = (\<lambda>text. None),
      create_dm_fault = None, fetch_fault = (\<lambda>before. None), delete_fault = (\<lambda>i. None)\<rparr>"

definition flaky_platform :: platform where
  "flaky_platform =
     example_platform\<lparr>delete_fault :=
       (\<lambda>i. if i = 2 then Some (Fault (Some 10008) (lit ''Unknown Message'')) else None)\<rparr>"

definition limited_platform :: platform where
  "limited_platform =
     example_platform\<lparr>delete_fault :=
       (\<lambda>i. if i = 1 then Some (Fault (Some 50001) (lit ''Missing Access'')) else None)\<rparr>"

section \<open>Standard input\<close>

lemma foldl_data:
  "foldl on_event s (map Data chunks) = s\<lparr>input := input s @ concat chunks\<rparr>"
  by (induction chunks arbitrary: s) simp_all

lemma settled_stays:
  "settled s \<noteq> Pending \<Longrightarrow> settled (foldl on_event s events) = settled s"
proof (induction events arbitrary: s)
  case Nil
  then show ?case by simp
next
  case (Cons e events)
  have "settled (on_event s e) = settled s"
    using Cons.prems by (cases e; cases "settled s") (simp_all add: Let_def)
  with Cons show ?case by simp
qed

text \<open>
  C10. When the chunks read before the end of the stream trim to the empty string,
  \<open>readStdin\<close> is rejected with the empty-input error and is never fulfilled: the
  \<open>end\<close> listener calls \<open>reject\<close> and then \<open>resolve\<close>, and the second call finds
  the promise settled. Whatever the stream delivers afterwards changes nothing.
\<close>

theorem readStdin_empty_input_rejected:
  assumes "trim (concat chunks) = []"
  shows "readStdin (map Data chunks @ End # rest)
           = Rejected (Error (lit ''No message input received''))
         \<and> (\<forall>v. readStdin (map Data chunks @ End # rest) \<noteq> Fulfilled v)"
proof -
  let ?s = "foldl on_event \<lparr>input = [], settled = Pending\<rparr> (map Data chunks)"
  have s: "?s = \<lparr>input = concat chunks, settled = Pending\<rparr>"
    by (simp add: foldl_data)
  have "settled (on_event ?s End) = Rejected (Error (lit ''No message input received''))"
    using assms by (simp add: s)
  then have "settled (foldl on_event (on_event ?s End) rest)
               = Rejected (Error (lit ''No message input received''))"
    by (simp add: settled_stays)
  then show ?thesis by (simp add: readStdin_def)
qed

theorem readStdin_empty_input_rejected_witness:
  "trim (concat [[0x20], [0x0A, 0x09]]) = []
   \<and> readStdin (map Data [[0x20], [0x0A, 0x09]] @ End # [Data [0x61], End])
       = Rejected (Error (lit ''No message input received''))"
  using readStdin_empty_input_rejected [of "[[0x20], [0x0A, 0x09]]" "[Data [0x61], End]"]
  by (simp add: trim_def is_white_space_def)

lemma example_env_valid: "validateEnvironment example_env = Inr ()"
  by (simp add: validateEnvironment_def missingVars_def REQUIRED_ENV_VARS_def example_env_def
      unset_def lit_def)

text \<open>
  C1. With both configuration keys set, empty standard input and whitespace-only standard
  input end the sender before any client is constructed, as claimed, but with exit code 3
  (\<open>NB_DISCORD_ERROR\<close>), not with the empty-input code 1 (\<open>NB_NO_MESSAGE\<close>): the
  message of the empty-input error contains neither of the two phrases the \<^verbatim>\<open>catch\<close>
  block looks for, and \<open>NB_NO_MESSAGE\<close> is used nowhere.
\<close>

theorem sender_empty_input_exits_3:
  "sender_main example_env [End] P signals
     = [ConsoleError (Message (lit ''No message input received'')), Exit NB_DISCORD_ERROR]
   \<and> sender_main example_env [Data [0x20, 0x0A], End] P signals
     = [ConsoleError (Message (lit ''No message input received'')), Exit NB_DISCORD_ERROR]
   \<and> NB_DISCORD_ERROR = 3 \<and> NB_NO_MESSAGE = 1"
  by (simp add: sender_main_def example_env_valid readStdin_def trim_def is_white_space_def
      sender_catch_def lit_def NB_DISCORD_ERROR_def NB_NO_MESSAGE_def)

section \<open>Environment validation\<close>

lemma missingVars_cases:
  "missingVars env = [] \<or> missingVars env = [BOT_TOKEN] \<or> missingVars env = [DM_USER_ID]
   \<or> missingVars env = [BOT_TOKEN, DM_USER_ID]"
  by (simp add: missingVars_def REQUIRED_ENV_VARS_def)

lemma missingVars_set:
  "set (missingVars env) = {k \<in> {BOT_TOKEN, DM_USER_ID}. unset (env k)}"
  by (auto simp add: missingVars_def REQUIRED_ENV_VARS_def)

lemma missing_message_names_keys:
  assumes "ks = [BOT_TOKEN] \<or> ks = [DM_USER_ID] \<or> ks = [BOT_TOKEN, DM_USER_ID]"
  shows "str_includes (lit ''Missing required environment variables: '' @ join (lit '', '') ks)
           (lit ''environment variables'')
         \<and> (\<forall>k \<in> set ks.
               str_includes (lit ''Missing required environment variables: '' @ join (lit '', '') ks) k)"
  using assms by (elim disjE) (simp_all add: lit_def)

text \<open>
  C6. The missing keys are exactly the required keys that are unset or empty. When there
  is one, \<open>validateEnvironment\<close> fails with a message that contains the name of every
  missing key; the sender then logs it and exits with code 2, the purger logs it and exits
  with code 1, in both cases as the whole run: no client is constructed and no call of the
  platform is made, whatever standard input and the platform would have delivered. When
  no key is missing, \<open>validateEnvironment\<close> returns normally.
\<close>

theorem validateEnvironment_names_every_missing_key:
  "set (missingVars env) = {k \<in> {BOT_TOKEN, DM_USER_ID}. unset (env k)}
   \<and> (missingVars env \<noteq> [] \<longrightarrow>
        validateEnvironment env
          = Inl (Error (lit ''Missing required environment variables: ''
                         @ join (lit '', '') (missingVars env)))
        \<and> (\<forall>k \<in> set (missingVars env).
              str_includes (lit ''Missing required environment variables: ''
                             @ join (lit '', '') (missingVars env)) k)
        \<and> sender_main env stdin P signals
            = [ConsoleError (Message (lit ''Missing required environment variables: ''
                                       @ join (lit '', '') (missingVars env))),
               Exit 2]
        \<and> purger_main env P signals conv
            = Some ([ConsoleError (Message (lit ''Missing required environment variables: ''
                                             @ join (lit '', '') (missingVars env))),
                     Exit 1], conv))
   \<and> (missingVars env = [] \<longrightarrow> validateEnvironment env = Inr ())"
proof (intro conjI impI)
  show "set (missingVars env) = {k \<in> {BOT_TOKEN, DM_USER_ID}. unset (env k)}"
    by (rule missingVars_set)
next
  assume "missingVars env = []"
  then show "validateEnvironment env = Inr ()"
    by (simp add: validateEnvironment_def)
next
  let ?msg = "lit ''Missing required environment variables: '' @ join (lit '', '') (missingVars env)"
  assume ne: "missingVars env \<noteq> []"
  then have ks: "missingVars env = [BOT_TOKEN] \<or> missingVars env = [DM_USER_ID]
      \<or> missingVars env = [BOT_TOKEN, DM_USER_ID]"
    using missingVars_cases [of env] by blast
  show v: "validateEnvironment env = Inl (Error ?msg)"
    using ne by (simp add: validateEnvironment_def)
  show "\<forall>k \<in> set (missingVars env). str_includes ?msg k"
    using missing_message_names_keys [OF ks] by blast
  have inc: "str_includes ?msg (lit ''environment variables'')"
    using missing_message_names_keys [OF ks] by blast
  show "sender_main env stdin P signals = [ConsoleError (Message ?msg), Exit 2]"
    using inc by (simp add: sender_main_def v sender_catch_def NB_MISSING_ENV_def)
  show "purger_main env P signals conv = Some ([ConsoleError (Message ?msg), Exit 1], conv)"
    using inc by (simp add: purger_main_def v purger_catch_def PC_MISSING_ENV_def)
qed

theorem validateEnvironment_names_every_missing_key_witness:
  "missingVars Map.empty = [BOT_TOKEN, DM_USER_ID]
   \<and> validateEnvironment Map.empty
       = Inl (Error (lit ''Missing required environment variables: BOT_TOKEN, DM_USER_ID''))
   \<and> sender_main Map.empty [] example_platform [Ready]
       = [ConsoleError (Message (lit ''Missing required environment variables: BOT_TOKEN, DM_USER_ID'')),
          Exit 2]
   \<and> purger_main Map.empty example_platform [Ready] []
       = Some ([ConsoleError (Message (lit ''Missing required environment variables: BOT_TOKEN, DM_USER_ID'')),
                Exit 1], [])
   \<and> missingVars example_env = [] \<and> validateEnvironment example_env = Inr ()"
proof -
  have m: "missingVars Map.empty = [BOT_TOKEN, DM_USER_ID]"
    by (simp add: missingVars_def REQUIRED_ENV_VARS_def unset_def)
  have e: "missingVars example_env = []"
    by (simp add: missingVars_def REQUIRED_ENV_VARS_def unset_def example_env_def lit_def)
  show ?thesis
    using validateEnvironment_names_every_missing_key
        [of Map.empty "[]" example_platform "[Ready]" "[]"]
      validateEnvironment_names_every_missing_key [of example_env]
    by (simp add: m e lit_def)
qed

section \<open>The loop over a page\<close>

lemma for_messages_cursor:
  "lastMessageId (snd (for_messages P ms s)) = lastMessageId s"
  by (induction ms arbitrary: s) (simp_all add: emit_def split: option.splits)

lemma for_messages_append:
  "for_messages P (xs @ ys) s =
     (case for_messages P xs s of
        (None, s1) \<Rightarrow> for_messages P ys s1
      | (Some e, s1) \<Rightarrow> (Some e, s1))"
  by (induction xs arbitrary: s) (simp_all split: option.splits)

lemma for_messages_no_rate_limit:
  "\<forall>m \<in> set ms. \<not> rate_limited P m \<Longrightarrow>
   for_messages P ms s =
     (None, s\<lparr>messagesDeleted := messagesDeleted s + length (filter (deletable P) ms),
              history := filter (\<lambda>x. msg_id x \<notin> msg_id ` set (filter (deletable P) ms)) (history s),
              trace := trace s @ concat (map (message_events P) ms)\<rparr>)"
proof (induction ms arbitrary: s)
  case Nil
  then show ?case by simp
next
  case (Cons m ms)
  then have ih: "\<And>s. for_messages P ms s =
     (None, s\<lparr>messagesDeleted := messagesDeleted s + length (filter (deletable P) ms),
              history := filter (\<lambda>x. msg_id x \<notin> msg_id ` set (filter (deletable P) ms)) (history s),
              trace := trace s @ concat (map (message_events P) ms)\<rparr>)"
    by simp
  have nrl: "\<not> rate_limited P m" using Cons.prems by simp
  show ?case
  proof (cases "author_id m = bot_id P")
    case False
    then have "\<not> deletable P m" and "message_events P m = []"
      by (simp_all add: deletable_def message_events_def)
    then show ?thesis
      using False by (simp add: ih)
  next
    case True
    show ?thesis
    proof (cases "delete_fault P (msg_id m)")
      case None
      then have d: "deletable P m"
        and ev: "message_events P m
                   = [Delete (msg_id m), ConsoleLog (DeletedMessageID (msg_id m)), Delay DELAY_MS]"
        using True by (simp_all add: deletable_def message_events_def)
      have "filter (\<lambda>x. msg_id x \<notin> msg_id ` set (filter (deletable P) ms))
              (filter (\<lambda>x. msg_id x \<noteq> msg_id m) (history s))
            = filter (\<lambda>x. msg_id x \<notin> msg_id ` set (filter (deletable P) (m # ms))) (history s)"
        using d by (auto intro: filter_cong)
      then show ?thesis
        using True None d ev by (simp add: ih emit_def)
    next
      case (Some f)
      then have c: "fault_code f \<noteq> Some 50001"
        using nrl True by (simp add: rate_limited_def)
      have "\<not> deletable P m"
        and "message_events P m
               = [Delete (msg_id m), ConsoleError (FailedToDelete (msg_id m) (fault_message f))]"
        using True Some by (simp_all add: deletable_def message_events_def)
      then show ?thesis
        using True Some c by (simp add: ih emit_def)
    qed
  qed
qed

lemma for_messages_rate_limited:
  assumes "\<forall>x \<in> set pre. \<not> rate_limited P x" and "rate_limited P m"
  shows "for_messages P (pre @ m # post) s =
     (Some (Error (lit ''Rate limit exceeded'')),
      s\<lparr>messagesDeleted := messagesDeleted s + length (filter (deletable P) pre),
        history := filter (\<lambda>x. msg_id x \<notin> msg_id ` set (filter (deletable P) pre)) (history s),
        trace := trace s @ concat (map (message_events P) pre) @ [Delete (msg_id m)]\<rparr>)"
  using assms(2)
  by (simp add: for_messages_append for_messages_no_rate_limit [OF assms(1)] rate_limited_def
      emit_def split: option.splits)

lemma for_messages_error:
  "for_messages P ms s = (Some e, s') \<Longrightarrow>
   e = Error (lit ''Rate limit exceeded'') \<and> (\<exists>t i. trace s' = t @ [Delete i])"
  by (induction ms arbitrary: s) (auto simp add: emit_def split: option.splits if_splits)


section \<open>One iteration, and the loop\<close>

lemma collection_last_eq: "collection_last ms = (if ms = [] then None else Some (last ms))"
  by (induction ms rule: collection_last.induct) simp_all

lemma fetchMessages_older_than:
  "m \<in> set (fetchMessages conv (Some c) limit) \<Longrightarrow> msg_id m < c"
  by (auto simp add: fetchMessages_def older_def dest: in_set_takeD)

lemma fetchMessages_subset:
  "m \<in> set (fetchMessages conv before limit) \<Longrightarrow> m \<in> set conv"
  by (auto simp add: fetchMessages_def older_def dest: in_set_takeD split: option.splits)

lemma iteration_cases:
  obtains
    (fault) f where "fetch_fault P (lastMessageId s) = Some f"
      and "iteration P s = Abort (PlatformFault f) (emit [Fetch BATCH_SIZE (lastMessageId s)] s)"
  | (empty) "fetch_fault P (lastMessageId s) = None"
      and "fetchMessages (history s) (lastMessageId s) BATCH_SIZE = []"
      and "iteration P s = Break (emit [Fetch BATCH_SIZE (lastMessageId s)] s)"
  | (abort) e s2 where "fetch_fault P (lastMessageId s) = None"
      and "fetchMessages (history s) (lastMessageId s) BATCH_SIZE \<noteq> []"
      and "for_messages P (fetchMessages (history s) (lastMessageId s) BATCH_SIZE)
             (emit [Fetch BATCH_SIZE (lastMessageId s)] s) = (Some e, s2)"
      and "iteration P s = Abort e s2"
  | (continue) s2 where "fetch_fault P (lastMessageId s) = None"
      and "fetchMessages (history s) (lastMessageId s) BATCH_SIZE \<noteq> []"
      and "for_messages P (fetchMessages (history s) (lastMessageId s) BATCH_SIZE)
             (emit [Fetch BATCH_SIZE (lastMessageId s)] s) = (None, s2)"
      and "iteration P s
             = Continue (s2\<lparr>lastMessageId :=
                 Some (msg_id (last (fetchMessages (history s) (lastMessageId s) BATCH_SIZE)))\<rparr>)"
proof (cases "fetch_fault P (lastMessageId s)")
  case (Some f)
  then show ?thesis using fault by (simp add: iteration_def)
next
  case None
  show ?thesis
  proof (cases "fetchMessages (history s) (lastMessageId s) BATCH_SIZE = []")
    case True
    then show ?thesis using None empty by (simp add: iteration_def)
  next
    case False
    obtain r s2 where fm: "for_messages P (fetchMessages (history s) (lastMessageId s) BATCH_SIZE)
             (emit [Fetch BATCH_SIZE (lastMessageId s)] s) = (r, s2)"
      by (cases "for_messages P (fetchMessages (history s) (lastMessageId s) BATCH_SIZE)
             (emit [Fetch BATCH_SIZE (lastMessageId s)] s)")
    show ?thesis
    proof (cases r)
      case None': None
      then show ?thesis
        using None False fm continue
        by (simp add: iteration_def advance_cursor_def collection_last_eq)
    next
      case (Some e)
      then show ?thesis
        using None False fm abort by (simp add: iteration_def)
    qed
  qed
qed

lemma iteration_Continue_cursor:
  assumes "iteration P s = Continue s'"
  shows "\<exists>m \<in> set (history s). lastMessageId s' = Some (msg_id m)
           \<and> (\<forall>c. lastMessageId s = Some c \<longrightarrow> msg_id m < c)"
proof (cases P s rule: iteration_cases)
  case (continue s2)
  let ?page = "fetchMessages (history s) (lastMessageId s) BATCH_SIZE"
  have l: "last ?page \<in> set ?page" using continue(2) by simp
  then have "last ?page \<in> set (history s)" by (rule fetchMessages_subset)
  moreover have "\<forall>c. lastMessageId s = Some c \<longrightarrow> msg_id (last ?page) < c"
    using l fetchMessages_older_than by metis
  moreover have "lastMessageId s' = Some (msg_id (last ?page))"
    using assms continue(4) by auto
  ultimately show ?thesis by blast
qed (use assms in simp_all)

lemma iteration_decreases:
  assumes "iteration P s = Continue s'"
  shows "(s', s) \<in> measures [\<lambda>s. if lastMessageId s = None then 1 else 0, cursor_rank]"
  using iteration_Continue_cursor [OF assms]
  by (cases "lastMessageId s") (auto simp add: cursor_rank_def)

lemma while_loop_returns: "\<exists>r. while_loop P s = Some r"
proof (induction s rule: wf_induct_rule [OF wf_measures [of "[\<lambda>s. if lastMessageId s = None then 1 else 0, cursor_rank]"]])
  case (1 s)
  show ?case
  proof (cases "iteration P s")
    case (Continue s')
    then have "(s', s) \<in> measures [\<lambda>s. if lastMessageId s = None then 1 else 0, cursor_rank]"
      by (rule iteration_decreases)
    then obtain r where "while_loop P s' = Some r" using 1 by blast
    then show ?thesis using Continue by (subst while_loop.simps) simp
  qed (subst while_loop.simps, simp)+
qed

lemma while_loop_induct [consumes 1, case_names Break Abort Continue]:
  assumes "while_loop P s = Some r"
    and "\<And>s s'. iteration P s = Break s' \<Longrightarrow> Q s (None, s')"
    and "\<And>s e s'. iteration P s = Abort e s' \<Longrightarrow> Q s (Some e, s')"
    and "\<And>s s' r. iteration P s = Continue s' \<Longrightarrow> while_loop P s' = Some r \<Longrightarrow> Q s' r \<Longrightarrow> Q s r"
  shows "Q s r"
  using assms(1)
proof (induction s arbitrary: r rule: wf_induct_rule [OF wf_measures [of "[\<lambda>s. if lastMessageId s = None then 1 else 0, cursor_rank]"]])
  case (1 s)
  show ?case
  proof (cases "iteration P s")
    case (Break s')
    then have "r = (None, s')" using "1.prems" by (subst (asm) while_loop.simps) simp
    then show ?thesis using assms(2) [OF Break] by simp
  next
    case (Abort e s')
    then have "r = (Some e, s')" using "1.prems" by (subst (asm) while_loop.simps) simp
    then show ?thesis using assms(3) [OF Abort] by simp
  next
    case (Continue s')
    then have w: "while_loop P s' = Some r" using "1.prems" by (subst (asm) while_loop.simps) simp
    have "(s', s) \<in> measures [\<lambda>s. if lastMessageId s = None then 1 else 0, cursor_rank]"
      using Continue by (rule iteration_decreases)
    then have "Q s' r" using "1.IH" w by blast
    then show ?thesis using assms(4) [OF Continue w] by simp
  qed
qed


section \<open>Paging through a conversation kept newest first\<close>

lemma newest_first_filter: "newest_first conv \<Longrightarrow> newest_first (filter Q conv)"
  by (simp add: newest_first_def sorted_wrt_filter)

lemma newest_first_older: "newest_first conv \<Longrightarrow> newest_first (older conv before)"
  by (cases before) (simp_all add: older_def newest_first_filter)

lemma newest_first_split:
  assumes "newest_first (xs @ ys)" and "xs \<noteq> []"
  shows "\<forall>x \<in> set xs. msg_id (last xs) \<le> msg_id x"
    and "\<forall>y \<in> set ys. msg_id y < msg_id (last xs)"
proof -
  have xs: "sorted_wrt (\<lambda>a b. msg_id b < msg_id a) (butlast xs @ [last xs])"
    using assms by (simp add: newest_first_def sorted_wrt_append)
  show "\<forall>x \<in> set xs. msg_id (last xs) \<le> msg_id x"
  proof
    fix x assume "x \<in> set xs"
    then have "x \<in> set (butlast xs) \<or> x = last xs"
      using assms(2) by (metis Un_iff append_butlast_last_id insert_iff list.set(2) set_append empty_iff list.set(1))
    then show "msg_id (last xs) \<le> msg_id x"
      using xs by (auto simp add: sorted_wrt_append)
  qed
  show "\<forall>y \<in> set ys. msg_id y < msg_id (last xs)"
    using assms by (simp add: newest_first_def sorted_wrt_append)
qed

lemma older_after_page:
  assumes nf: "newest_first conv"
    and ne: "take n (older conv before) \<noteq> []"
    and D: "D \<subseteq> msg_id ` set (take n (older conv before))"
  shows "older (filter (\<lambda>x. msg_id x \<notin> D) conv)
           (Some (msg_id (last (take n (older conv before)))))
         = drop n (older conv before)"
proof -
  let ?rest = "older conv before"
  let ?page = "take n ?rest"
  let ?c = "msg_id (last ?page)"
  have nfr: "newest_first (?page @ drop n ?rest)"
    using nf by (simp add: newest_first_older)
  have ge: "\<forall>x \<in> set ?page. ?c \<le> msg_id x"
    and lt: "\<forall>y \<in> set (drop n ?rest). msg_id y < ?c"
    using newest_first_split [OF nfr ne] by blast+
  have "filter (\<lambda>x. msg_id x < ?c) ?rest
          = filter (\<lambda>x. msg_id x < ?c) ?page @ filter (\<lambda>x. msg_id x < ?c) (drop n ?rest)"
    by (metis append_take_drop_id filter_append)
  also have "filter (\<lambda>x. msg_id x < ?c) ?page = []"
    using ge by (auto simp add: filter_empty_conv)
  also have "filter (\<lambda>x. msg_id x < ?c) (drop n ?rest) = drop n ?rest"
    using lt by (simp add: filter_id_conv)
  finally have rest: "filter (\<lambda>x. msg_id x < ?c) ?rest = drop n ?rest" by simp
  have inrest: "last ?page \<in> set ?rest"
    using ne by (meson in_set_takeD last_in_set)
  have conv: "filter (\<lambda>x. msg_id x < ?c) ?rest = filter (\<lambda>x. msg_id x < ?c) conv"
  proof (cases before)
    case None
    then show ?thesis by (simp add: older_def)
  next
    case (Some c)
    then have "?c < c" using inrest by (simp add: older_def)
    then show ?thesis using Some by (auto simp add: older_def intro: filter_cong)
  qed
  have "older (filter (\<lambda>x. msg_id x \<notin> D) conv) (Some ?c)
          = filter (\<lambda>x. msg_id x \<notin> D \<and> msg_id x < ?c) conv"
    by (simp add: older_def conj_commute)
  also have "\<dots> = filter (\<lambda>x. msg_id x < ?c) conv"
  proof (rule filter_cong [OF refl])
    fix x assume "x \<in> set conv"
    show "(msg_id x \<notin> D \<and> msg_id x < ?c) = (msg_id x < ?c)"
      using D ge by fastforce
  qed
  finally show ?thesis using rest conv by simp
qed

lemma other_events_messages:
  "other_events (concat (map (message_events P) ms)) = concat (map (message_events P) ms)"
  by (induction ms)
    (simp_all add: other_events_def message_events_def split: option.splits)

lemma fetches_messages: "fetches (concat (map (message_events P) ms)) = 0"
  by (induction ms)
    (simp_all add: fetches_def message_events_def split: option.splits)

lemma other_events_append: "other_events (a @ b) = other_events a @ other_events b"
  by (simp add: other_events_def)

lemma fetches_append: "fetches (a @ b) = fetches a + fetches b"
  by (simp add: fetches_def)

lemma iteration_clean_page:
  assumes ff: "fetch_fault P (lastMessageId s) = None"
    and nf: "newest_first (history s)"
    and ne: "older (history s) (lastMessageId s) \<noteq> []"
    and nrl: "\<forall>m \<in> set (take BATCH_SIZE (older (history s) (lastMessageId s))). \<not> rate_limited P m"
  shows "\<exists>s1. iteration P s = Continue s1
          \<and> newest_first (history s1)
          \<and> older (history s1) (lastMessageId s1) = drop BATCH_SIZE (older (history s) (lastMessageId s))
          \<and> messagesDeleted s1 = messagesDeleted s
               + length (filter (deletable P) (take BATCH_SIZE (older (history s) (lastMessageId s))))
          \<and> history s1 = filter (\<lambda>x. msg_id x \<notin> msg_id `
                 set (filter (deletable P) (take BATCH_SIZE (older (history s) (lastMessageId s)))))
               (history s)
          \<and> trace s1 = trace s @ Fetch BATCH_SIZE (lastMessageId s)
               # concat (map (message_events P) (take BATCH_SIZE (older (history s) (lastMessageId s))))"
proof -
  let ?rest = "older (history s) (lastMessageId s)"
  let ?page = "take BATCH_SIZE ?rest"
  let ?D = "msg_id ` set (filter (deletable P) ?page)"
  have page: "fetchMessages (history s) (lastMessageId s) BATCH_SIZE = ?page"
    by (simp add: fetchMessages_def)
  have pne: "?page \<noteq> []" using ne by (simp add: BATCH_SIZE_def)
  let ?s1 = "emit [Fetch BATCH_SIZE (lastMessageId s)] s"
  let ?s2 = "?s1\<lparr>messagesDeleted := messagesDeleted ?s1 + length (filter (deletable P) ?page),
               history := filter (\<lambda>x. msg_id x \<notin> ?D) (history ?s1),
               trace := trace ?s1 @ concat (map (message_events P) ?page)\<rparr>"
  have fm: "for_messages P ?page ?s1 = (None, ?s2)"
    by (rule for_messages_no_rate_limit [OF nrl])
  have it: "iteration P s = Continue (?s2\<lparr>lastMessageId := Some (msg_id (last ?page))\<rparr>)"
    using ff pne fm
    by (simp add: iteration_def page advance_cursor_def collection_last_eq Let_def)
  have "older (filter (\<lambda>x. msg_id x \<notin> ?D) (history s)) (Some (msg_id (last ?page)))
          = drop BATCH_SIZE ?rest"
    by (rule older_after_page [OF nf pne]) auto
  then show ?thesis
    using it nf by (simp add: emit_def newest_first_filter)
qed


lemma pages_step: "0 < n \<Longrightarrow> pages n = Suc (pages (n - BATCH_SIZE))"
proof (cases "n \<le> BATCH_SIZE")
  case True
  assume "0 < n"
  with True show ?thesis by (simp add: pages_def BATCH_SIZE_def)
next
  case False
  then have "n + 49 = (n - 50 + 49) + 1 * 50" by (simp add: BATCH_SIZE_def)
  then have "(n + 49) div 50 = Suc ((n - 50 + 49) div 50)"
    by (metis div_mult_self1 Suc_eq_plus1 zero_neq_numeral add.commute)
  then show ?thesis by (simp add: pages_def BATCH_SIZE_def)
qed

lemma pages_0: "pages 0 = 0"
  by (simp add: pages_def BATCH_SIZE_def)

lemma iteration_empty_page:
  assumes "fetch_fault P (lastMessageId s) = None"
    and "older (history s) (lastMessageId s) = []"
  shows "iteration P s = Break (emit [Fetch BATCH_SIZE (lastMessageId s)] s)"
  using assms by (simp add: iteration_def fetchMessages_def)

lemma other_events_fetch: "other_events (Fetch n c # t) = other_events t"
  by (simp add: other_events_def)

lemma fetches_fetch: "fetches (Fetch n c # t) = Suc (fetches t)"
  by (simp add: fetches_def)

lemma while_loop_no_rate_limit:
  assumes ff: "\<forall>c. fetch_fault P c = None"
  shows "newest_first (history s) \<Longrightarrow>
    \<forall>m \<in> set (older (history s) (lastMessageId s)). \<not> rate_limited P m \<Longrightarrow>
    \<exists>s'. while_loop P s = Some (None, s')
      \<and> messagesDeleted s' = messagesDeleted s
           + length (filter (deletable P) (older (history s) (lastMessageId s)))
      \<and> history s' = filter (\<lambda>x. msg_id x \<notin> msg_id `
             set (filter (deletable P) (older (history s) (lastMessageId s)))) (history s)
      \<and> other_events (trace s') = other_events (trace s)
           @ concat (map (message_events P) (older (history s) (lastMessageId s)))
      \<and> fetches (trace s') = fetches (trace s)
           + pages (length (older (history s) (lastMessageId s))) + 1"
proof (induction "length (older (history s) (lastMessageId s))" arbitrary: s rule: less_induct)
  case less
  let ?rest = "older (history s) (lastMessageId s)"
  show ?case
  proof (cases "?rest = []")
    case True
    have "iteration P s = Break (emit [Fetch BATCH_SIZE (lastMessageId s)] s)"
      using ff True by (simp add: iteration_empty_page)
    then have "while_loop P s = Some (None, emit [Fetch BATCH_SIZE (lastMessageId s)] s)"
      by (subst while_loop.simps) simp
    then show ?thesis
      using True
      by (simp add: emit_def other_events_append fetches_append other_events_fetch
          fetches_fetch pages_0 other_events_def fetches_def)
  next
    case False
    define tk where "tk = take BATCH_SIZE ?rest"
    define dr where "dr = drop BATCH_SIZE ?rest"
    have rest: "?rest = tk @ dr" by (simp add: tk_def dr_def)
    have "\<forall>m \<in> set (take BATCH_SIZE ?rest). \<not> rate_limited P m"
      using less.prems(2) by (meson in_set_takeD)
    then obtain s1 where it: "iteration P s = Continue s1"
      and nf1: "newest_first (history s1)"
      and o1: "older (history s1) (lastMessageId s1) = dr"
      and d1: "messagesDeleted s1 = messagesDeleted s + length (filter (deletable P) tk)"
      and h1: "history s1 = filter (\<lambda>x. msg_id x \<notin> msg_id ` set (filter (deletable P) tk)) (history s)"
      and t1: "trace s1 = trace s @ Fetch BATCH_SIZE (lastMessageId s) # concat (map (message_events P) tk)"
      using iteration_clean_page [OF _ less.prems(1) False] ff unfolding tk_def dr_def by blast
    have len: "length (older (history s1) (lastMessageId s1)) < length ?rest"
      using False by (simp add: o1 dr_def BATCH_SIZE_def)
    have nrl1: "\<forall>m \<in> set (older (history s1) (lastMessageId s1)). \<not> rate_limited P m"
      using less.prems(2) o1 rest by simp
    obtain s' where w: "while_loop P s1 = Some (None, s')"
      and d: "messagesDeleted s' = messagesDeleted s1 + length (filter (deletable P) dr)"
      and h: "history s' = filter (\<lambda>x. msg_id x \<notin> msg_id ` set (filter (deletable P) dr)) (history s1)"
      and t: "other_events (trace s') = other_events (trace s1) @ concat (map (message_events P) dr)"
      and f: "fetches (trace s') = fetches (trace s1) + pages (length dr) + 1"
      using less.hyps [OF len nf1 nrl1] unfolding o1 by blast
    have w0: "while_loop P s = Some (None, s')"
      using it w by (subst while_loop.simps) simp
    have d0: "messagesDeleted s' = messagesDeleted s + length (filter (deletable P) ?rest)"
      by (simp add: d d1 rest)
    have h0: "history s' = filter (\<lambda>x. msg_id x \<notin> msg_id ` set (filter (deletable P) ?rest)) (history s)"
      unfolding h h1 rest by (auto intro: filter_cong)
    have t0: "other_events (trace s') = other_events (trace s) @ concat (map (message_events P) ?rest)"
      by (simp add: t t1 rest other_events_append other_events_fetch other_events_messages)
    have "pages (length ?rest) = Suc (pages (length dr))"
      using False pages_step [of "length ?rest"] by (simp add: dr_def)
    then have f0: "fetches (trace s') = fetches (trace s) + pages (length ?rest) + 1"
      by (simp add: f t1 fetches_append fetches_fetch fetches_messages)
    show ?thesis using w0 d0 h0 t0 f0 by blast
  qed
qed

lemma while_loop_rate_limited:
  assumes ff: "\<forall>c. fetch_fault P c = None"
  shows "newest_first (history s) \<Longrightarrow>
    older (history s) (lastMessageId s) = pre @ m # post \<Longrightarrow>
    \<forall>x \<in> set pre. \<not> rate_limited P x \<Longrightarrow> rate_limited P m \<Longrightarrow>
    \<exists>s' t. while_loop P s = Some (Some (Error (lit ''Rate limit exceeded'')), s')
      \<and> messagesDeleted s' = messagesDeleted s + length (filter (deletable P) pre)
      \<and> history s' = filter (\<lambda>x. msg_id x \<notin> msg_id ` set (filter (deletable P) pre)) (history s)
      \<and> trace s' = t @ [Delete (msg_id m)]
      \<and> other_events t = other_events (trace s) @ concat (map (message_events P) pre)"
proof (induction "length pre" arbitrary: s pre rule: less_induct)
  case less
  let ?rest = "older (history s) (lastMessageId s)"
  have rest: "?rest = pre @ m # post" by (rule less.prems(2))
  show ?case
  proof (cases "length pre < BATCH_SIZE")
    case True
    let ?s1 = "emit [Fetch BATCH_SIZE (lastMessageId s)] s"
    have page: "fetchMessages (history s) (lastMessageId s) BATCH_SIZE
                  = pre @ m # take (BATCH_SIZE - Suc (length pre)) post"
      using True by (simp add: fetchMessages_def rest take_Cons')
    let ?s2 = "?s1\<lparr>messagesDeleted := messagesDeleted ?s1 + length (filter (deletable P) pre),
        history := filter (\<lambda>x. msg_id x \<notin> msg_id ` set (filter (deletable P) pre)) (history ?s1),
        trace := trace ?s1 @ concat (map (message_events P) pre) @ [Delete (msg_id m)]\<rparr>"
    have "for_messages P (pre @ m # take (BATCH_SIZE - Suc (length pre)) post) ?s1
            = (Some (Error (lit ''Rate limit exceeded'')), ?s2)"
      by (rule for_messages_rate_limited [OF less.prems(3) less.prems(4)])
    then have "iteration P s = Abort (Error (lit ''Rate limit exceeded'')) ?s2"
      using ff by (simp add: iteration_def page Let_def)
    then have w: "while_loop P s = Some (Some (Error (lit ''Rate limit exceeded'')), ?s2)"
      by (subst while_loop.simps) simp
    have "trace ?s2 = (trace s @ Fetch BATCH_SIZE (lastMessageId s) # concat (map (message_events P) pre))
                       @ [Delete (msg_id m)]"
      by (simp add: emit_def)
    moreover have "other_events (trace s @ Fetch BATCH_SIZE (lastMessageId s) # concat (map (message_events P) pre))
        = other_events (trace s) @ concat (map (message_events P) pre)"
      by (simp add: other_events_append other_events_fetch other_events_messages)
    moreover have "messagesDeleted ?s2 = messagesDeleted s + length (filter (deletable P) pre)"
      and "history ?s2 = filter (\<lambda>x. msg_id x \<notin> msg_id ` set (filter (deletable P) pre)) (history s)"
      by (simp_all add: emit_def)
    ultimately show ?thesis using w by blast
  next
    case False
    define tk where "tk = take BATCH_SIZE pre"
    define dr where "dr = drop BATCH_SIZE pre"
    have pre: "pre = tk @ dr" by (simp add: tk_def dr_def)
    have tk: "take BATCH_SIZE ?rest = tk" and drp: "drop BATCH_SIZE ?rest = dr @ m # post"
      using False by (simp_all add: rest tk_def dr_def)
    have ne: "?rest \<noteq> []" by (simp add: rest)
    have "\<forall>x \<in> set (take BATCH_SIZE ?rest). \<not> rate_limited P x"
      unfolding tk using less.prems(3) pre by simp
    then obtain s1 where it: "iteration P s = Continue s1"
      and nf1: "newest_first (history s1)"
      and o1: "older (history s1) (lastMessageId s1) = dr @ m # post"
      and d1: "messagesDeleted s1 = messagesDeleted s + length (filter (deletable P) tk)"
      and h1: "history s1 = filter (\<lambda>x. msg_id x \<notin> msg_id ` set (filter (deletable P) tk)) (history s)"
      and t1: "trace s1 = trace s @ Fetch BATCH_SIZE (lastMessageId s) # concat (map (message_events P) tk)"
      using iteration_clean_page [OF _ less.prems(1) ne] ff unfolding tk drp by blast
    have len: "length dr < length pre"
      using False by (simp add: dr_def BATCH_SIZE_def)
    have nrl1: "\<forall>x \<in> set dr. \<not> rate_limited P x"
      using less.prems(3) pre by simp
    obtain s' t where w: "while_loop P s1 = Some (Some (Error (lit ''Rate limit exceeded'')), s')"
      and d: "messagesDeleted s' = messagesDeleted s1 + length (filter (deletable P) dr)"
      and h: "history s' = filter (\<lambda>x. msg_id x \<notin> msg_id ` set (filter (deletable P) dr)) (history s1)"
      and t: "trace s' = t @ [Delete (msg_id m)]"
      and o: "other_events t = other_events (trace s1) @ concat (map (message_events P) dr)"
      using less.hyps [OF len nf1 o1 nrl1 less.prems(4)] by blast
    have w0: "while_loop P s = Some (Some (Error (lit ''Rate limit exceeded'')), s')"
      using it w by (subst while_loop.simps) simp
    have d0: "messagesDeleted s' = messagesDeleted s + length (filter (deletable P) pre)"
      by (simp add: d d1 pre)
    have h0: "history s' = filter (\<lambda>x. msg_id x \<notin> msg_id ` set (filter (deletable P) pre)) (history s)"
      unfolding h h1 pre by (auto intro: filter_cong)
    have o0: "other_events t = other_events (trace s) @ concat (map (message_events P) pre)"
      by (simp add: o t1 pre other_events_append other_events_fetch other_events_messages)
    show ?thesis using w0 d0 h0 t o0 by blast
  qed
qed

section \<open>Termination of the purge loop and the cursor update\<close>

lemma deleteBot_returns: "\<exists>r. deleteBotMessagesFromDM P userId s = Some r"
proof -
  obtain r where "while_loop P (emit [CreateDM] (emit [UsersFetch userId]
      (s\<lparr>messagesDeleted := 0, lastMessageId := None\<rparr>))) = Some r"
    using while_loop_returns by blast
  then show ?thesis
    by (cases r; cases "fst r")
      (simp_all add: deleteBotMessagesFromDM_def Let_def split: user_lookup.splits option.splits)
qed

text \<open>
  C7. The loop returns on every state, hence on every conversation: each iteration that
  goes on to the next one has fetched a non-empty page and leaves the cursor on a message
  of the conversation that is strictly older than the cursor it started with, and an
  iteration whose fetch is empty ends the loop. So \<open>deleteBotMessagesFromDM\<close> returns
  too.
\<close>

theorem purge_loop_terminates:
  "(\<exists>r. while_loop P s = Some r)
   \<and> (\<exists>r. deleteBotMessagesFromDM P userId s = Some r)
   \<and> (\<forall>s'. iteration P s = Continue s' \<longrightarrow>
         fetchMessages (history s) (lastMessageId s) BATCH_SIZE \<noteq> []
         \<and> (\<exists>m \<in> set (history s). lastMessageId s' = Some (msg_id m)
               \<and> (\<forall>c. lastMessageId s = Some c \<longrightarrow> msg_id m < c)))
   \<and> (fetch_fault P (lastMessageId s) = None
        \<and> fetchMessages (history s) (lastMessageId s) BATCH_SIZE = [] \<longrightarrow>
        while_loop P s = Some (None, emit [Fetch BATCH_SIZE (lastMessageId s)] s))"
proof (intro conjI allI impI)
  show "\<exists>r. while_loop P s = Some r" by (rule while_loop_returns)
  show "\<exists>r. deleteBotMessagesFromDM P userId s = Some r" by (rule deleteBot_returns)
next
  fix s' assume c: "iteration P s = Continue s'"
  then show "fetchMessages (history s) (lastMessageId s) BATCH_SIZE \<noteq> []"
    by (cases P s rule: iteration_cases) simp_all
  show "\<exists>m \<in> set (history s). lastMessageId s' = Some (msg_id m)
          \<and> (\<forall>c. lastMessageId s = Some c \<longrightarrow> msg_id m < c)"
    using c by (rule iteration_Continue_cursor)
next
  assume "fetch_fault P (lastMessageId s) = None
            \<and> fetchMessages (history s) (lastMessageId s) BATCH_SIZE = []"
  then have "iteration P s = Break (emit [Fetch BATCH_SIZE (lastMessageId s)] s)"
    by (simp add: iteration_def)
  then show "while_loop P s = Some (None, emit [Fetch BATCH_SIZE (lastMessageId s)] s)"
    by (subst while_loop.simps) simp
qed

lemma example_iteration:
  "iteration example_platform (initial_state [\<lparr>msg_id = 2, author_id = 7\<rparr>, \<lparr>msg_id = 1, author_id = 9\<rparr>])
     = Continue \<lparr>messagesDeleted = 1, lastMessageId = Some 1,
                 history = [\<lparr>msg_id = 1, author_id = 9\<rparr>],
                 trace = [Fetch 50 None, Delete 2, ConsoleLog (DeletedMessageID 2), Delay 1000]\<rparr>"
  by code_simp

theorem purge_loop_terminates_witness:
  "iteration example_platform (initial_state [\<lparr>msg_id = 2, author_id = 7\<rparr>, \<lparr>msg_id = 1, author_id = 9\<rparr>])
     = Continue \<lparr>messagesDeleted = 1, lastMessageId = Some 1,
                 history = [\<lparr>msg_id = 1, author_id = 9\<rparr>],
                 trace = [Fetch 50 None, Delete 2, ConsoleLog (DeletedMessageID 2), Delay 1000]\<rparr>
   \<and> fetchMessages [\<lparr>msg_id = 2, author_id = 7\<rparr>, \<lparr>msg_id = 1, author_id = 9\<rparr>] None BATCH_SIZE \<noteq> []
   \<and> fetch_fault example_platform None = None
   \<and> fetchMessages [] None BATCH_SIZE = []
   \<and> while_loop example_platform (initial_state [])
        = Some (None, \<lparr>messagesDeleted = 0, lastMessageId = None, history = [],
                        trace = [Fetch 50 None]\<rparr>)"
proof -
  let ?s = "initial_state [\<lparr>msg_id = 2, author_id = 7\<rparr>, \<lparr>msg_id = 1, author_id = 9\<rparr>]"
  have "fetchMessages (history ?s) (lastMessageId ?s) BATCH_SIZE \<noteq> []"
    using purge_loop_terminates [of example_platform ?s] example_iteration by blast
  then have a: "fetchMessages [\<lparr>msg_id = 2, author_id = 7\<rparr>, \<lparr>msg_id = 1, author_id = 9\<rparr>] None BATCH_SIZE \<noteq> []"
    by (simp add: initial_state_def)
  have b: "fetch_fault example_platform None = None" and c: "fetchMessages [] None BATCH_SIZE = []"
    by (simp_all add: example_platform_def fetchMessages_def older_def)
  then have "fetch_fault example_platform (lastMessageId (initial_state [])) = None
      \<and> fetchMessages (history (initial_state [])) (lastMessageId (initial_state [])) BATCH_SIZE = []"
    by (simp add: initial_state_def)
  then have "while_loop example_platform (initial_state [])
      = Some (None, emit [Fetch BATCH_SIZE (lastMessageId (initial_state []))] (initial_state []))"
    using purge_loop_terminates [of example_platform "initial_state []"] by blast
  then have d: "while_loop example_platform (initial_state [])
        = Some (None, \<lparr>messagesDeleted = 0, lastMessageId = None, history = [],
                        trace = [Fetch 50 None]\<rparr>)"
    by (simp add: initial_state_def emit_def BATCH_SIZE_def)
  show ?thesis using example_iteration a b c d by blast
qed

lemma iteration_no_TypeError: "iteration P s = Abort e s' \<Longrightarrow> e \<noteq> TypeError msg"
proof (cases P s rule: iteration_cases)
  case (abort e2 s2)
  assume "iteration P s = Abort e s'"
  then have "e = e2" using abort(4) by simp
  then show ?thesis using for_messages_error [OF abort(3)] by simp
qed auto

text \<open>
  C9. On an empty page the cursor update would raise a TypeError (the last message is
  \<^verbatim>\<open>undefined\<close>), but no iteration raises it: an iteration whose page is empty leaves
  the loop with the cursor untouched, and an iteration that goes on has fetched a
  non-empty page and sets the cursor to the identifier of its last message. Nor does the
  loop as a whole end with that error.
\<close>

theorem cursor_update_only_on_nonempty_page:
  "advance_cursor [] s0 = Inl (TypeError (lit ''Cannot read properties of undefined (reading 'id')''))
   \<and> (\<forall>e s' msg. iteration P s = Abort e s' \<longrightarrow> e \<noteq> TypeError msg)
   \<and> (fetch_fault P (lastMessageId s) = None
        \<and> fetchMessages (history s) (lastMessageId s) BATCH_SIZE = [] \<longrightarrow>
        iteration P s = Break (emit [Fetch BATCH_SIZE (lastMessageId s)] s))
   \<and> (\<forall>s'. iteration P s = Continue s' \<longrightarrow>
         fetchMessages (history s) (lastMessageId s) BATCH_SIZE \<noteq> []
         \<and> lastMessageId s' =
             Some (msg_id (last (fetchMessages (history s) (lastMessageId s) BATCH_SIZE))))
   \<and> (\<forall>e s' msg. while_loop P s = Some (Some e, s') \<longrightarrow> e \<noteq> TypeError msg)"
proof (intro conjI allI impI)
  show "advance_cursor [] s0 = Inl (TypeError (lit ''Cannot read properties of undefined (reading 'id')''))"
    by (simp add: advance_cursor_def)
next
  fix e s' msg assume "iteration P s = Abort e s'"
  then show "e \<noteq> TypeError msg" by (rule iteration_no_TypeError)
next
  assume "fetch_fault P (lastMessageId s) = None
            \<and> fetchMessages (history s) (lastMessageId s) BATCH_SIZE = []"
  then show "iteration P s = Break (emit [Fetch BATCH_SIZE (lastMessageId s)] s)"
    by (simp add: iteration_def)
next
  fix s' assume c: "iteration P s = Continue s'"
  then show "fetchMessages (history s) (lastMessageId s) BATCH_SIZE \<noteq> []"
    by (cases P s rule: iteration_cases) simp_all
  show "lastMessageId s' =
          Some (msg_id (last (fetchMessages (history s) (lastMessageId s) BATCH_SIZE)))"
    using c by (cases P s rule: iteration_cases) auto
next
  fix e s' msg assume w: "while_loop P s = Some (Some e, s')"
  have "fst (Some e, s') \<noteq> Some (TypeError msg)"
    using w
  proof (induction rule: while_loop_induct)
    case (Abort s e s')
    then show ?case using iteration_no_TypeError by auto
  qed simp_all
  then show "e \<noteq> TypeError msg" by simp
qed


lemmas run_simps = iteration_def fetchMessages_def older_def emit_def BATCH_SIZE_def
  DELAY_MS_def advance_cursor_def

lemma example_abort:
  "iteration limited_platform (initial_state [\<lparr>msg_id = 1, author_id = 7\<rparr>])
     = Abort (Error (lit ''Rate limit exceeded''))
         \<lparr>messagesDeleted = 0, lastMessageId = None,
          history = [\<lparr>msg_id = 1, author_id = 7\<rparr>], trace = [Fetch 50 None, Delete 1]\<rparr>"
  by (simp add: run_simps limited_platform_def example_platform_def initial_state_def)

lemma example_abort_loop:
  "while_loop limited_platform (initial_state [\<lparr>msg_id = 1, author_id = 7\<rparr>])
     = Some (Some (Error (lit ''Rate limit exceeded'')),
         \<lparr>messagesDeleted = 0, lastMessageId = None,
          history = [\<lparr>msg_id = 1, author_id = 7\<rparr>], trace = [Fetch 50 None, Delete 1]\<rparr>)"
  by (subst while_loop.simps) (simp only: example_abort step.simps)

theorem cursor_update_only_on_nonempty_page_witness:
  "iteration example_platform (initial_state [\<lparr>msg_id = 2, author_id = 7\<rparr>, \<lparr>msg_id = 1, author_id = 9\<rparr>])
     = Continue \<lparr>messagesDeleted = 1, lastMessageId = Some 1,
                 history = [\<lparr>msg_id = 1, author_id = 9\<rparr>],
                 trace = [Fetch 50 None, Delete 2, ConsoleLog (DeletedMessageID 2), Delay 1000]\<rparr>
   \<and> fetchMessages [\<lparr>msg_id = 2, author_id = 7\<rparr>, \<lparr>msg_id = 1, author_id = 9\<rparr>] None BATCH_SIZE \<noteq> []
   \<and> Some 1 = Some (msg_id (last (fetchMessages
          [\<lparr>msg_id = 2, author_id = 7\<rparr>, \<lparr>msg_id = 1, author_id = 9\<rparr>] None BATCH_SIZE)))
   \<and> fetch_fault example_platform None = None
   \<and> fetchMessages [] None BATCH_SIZE = []
   \<and> iteration example_platform (initial_state [])
        = Break \<lparr>messagesDeleted = 0, lastMessageId = None, history = [], trace = [Fetch 50 None]\<rparr>
   \<and> iteration limited_platform (initial_state [\<lparr>msg_id = 1, author_id = 7\<rparr>])
        = Abort (Error (lit ''Rate limit exceeded''))
            \<lparr>messagesDeleted = 0, lastMessageId = None,
             history = [\<lparr>msg_id = 1, author_id = 7\<rparr>], trace = [Fetch 50 None, Delete 1]\<rparr>
   \<and> while_loop limited_platform (initial_state [\<lparr>msg_id = 1, author_id = 7\<rparr>])
        = Some (Some (Error (lit ''Rate limit exceeded'')),
            \<lparr>messagesDeleted = 0, lastMessageId = None,
             history = [\<lparr>msg_id = 1, author_id = 7\<rparr>], trace = [Fetch 50 None, Delete 1]\<rparr>)
   \<and> Error (lit ''Rate limit exceeded'')
        \<noteq> TypeError (lit ''Cannot read properties of undefined (reading 'id')'')"
proof -
  let ?s = "initial_state [\<lparr>msg_id = 2, author_id = 7\<rparr>, \<lparr>msg_id = 1, author_id = 9\<rparr>]"
  let ?s' = "\<lparr>messagesDeleted = 1, lastMessageId = Some 1,
                 history = [\<lparr>msg_id = 1, author_id = 9\<rparr>],
                 trace = [Fetch 50 None, Delete 2, ConsoleLog (DeletedMessageID 2), Delay 1000]\<rparr>"
  have "fetchMessages (history ?s) (lastMessageId ?s) BATCH_SIZE \<noteq> []
        \<and> lastMessageId ?s' = Some (msg_id (last (fetchMessages (history ?s) (lastMessageId ?s) BATCH_SIZE)))"
    using cursor_update_only_on_nonempty_page [of "initial_state []" example_platform ?s] example_iteration
    by blast
  then have a: "fetchMessages [\<lparr>msg_id = 2, author_id = 7\<rparr>, \<lparr>msg_id = 1, author_id = 9\<rparr>] None BATCH_SIZE \<noteq> []
      \<and> Some 1 = Some (msg_id (last (fetchMessages
          [\<lparr>msg_id = 2, author_id = 7\<rparr>, \<lparr>msg_id = 1, author_id = 9\<rparr>] None BATCH_SIZE)))"
    by (simp add: initial_state_def)
  have b: "fetch_fault example_platform None = None" and c: "fetchMessages [] None BATCH_SIZE = []"
    by (simp_all add: example_platform_def fetchMessages_def older_def)
  then have "fetch_fault example_platform (lastMessageId (initial_state [])) = None
      \<and> fetchMessages (history (initial_state [])) (lastMessageId (initial_state [])) BATCH_SIZE = []"
    by (simp add: initial_state_def)
  then have "iteration example_platform (initial_state [])
      = Break (emit [Fetch BATCH_SIZE (lastMessageId (initial_state []))] (initial_state []))"
    using cursor_update_only_on_nonempty_page [of "initial_state []" example_platform "initial_state []"]
    by blast
  then have d: "iteration example_platform (initial_state [])
        = Break \<lparr>messagesDeleted = 0, lastMessageId = None, history = [], trace = [Fetch 50 None]\<rparr>"
    by (simp add: initial_state_def emit_def BATCH_SIZE_def)
  have e: "Error (lit ''Rate limit exceeded'')
        \<noteq> TypeError (lit ''Cannot read properties of undefined (reading 'id')'')"
    using cursor_update_only_on_nonempty_page [of "initial_state []" limited_platform
        "initial_state [\<lparr>msg_id = 1, author_id = 7\<rparr>]"] example_abort example_abort_loop
    by blast
  show ?thesis using example_iteration a b c d e example_abort example_abort_loop by blast
qed

section \<open>A whole purge without a rate-limit fault\<close>

lemma newest_first_distinct: "newest_first conv \<Longrightarrow> distinct (map msg_id conv)"
  by (induction conv) (auto simp add: newest_first_def)

lemma removed_by_id:
  assumes "newest_first conv"
  shows "filter (\<lambda>x. msg_id x \<notin> msg_id ` set (filter Q conv)) conv = filter (\<lambda>x. \<not> Q x) conv"
proof (rule filter_cong [OF refl])
  fix x assume x: "x \<in> set conv"
  have inj: "inj_on msg_id (set conv)"
    using newest_first_distinct [OF assms] by (simp add: distinct_map)
  show "(msg_id x \<notin> msg_id ` set (filter Q conv)) = (\<not> Q x)"
    using x inj by (auto dest: inj_onD)
qed

lemma delete_calls_append: "delete_calls (a @ b) = delete_calls a @ delete_calls b"
  by (induction a rule: delete_calls.induct) simp_all

lemma delete_calls_other_events: "delete_calls (other_events t) = delete_calls t"
  by (induction t rule: delete_calls.induct) (simp_all add: other_events_def)

lemma delete_calls_messages:
  "delete_calls (concat (map (message_events P) ms)) = map msg_id (filter (by_bot P) ms)"
  by (induction ms)
    (simp_all add: delete_calls_append message_events_def by_bot_def split: option.splits)

lemma in_other_events: "e \<in> set (other_events t) \<Longrightarrow> e \<in> set t"
  by (simp add: other_events_def)

lemma deleteBot_no_rate_limit:
  assumes "users_fetch P = UserFound" and "create_dm_fault P = None"
    and ff: "\<forall>c. fetch_fault P c = None"
    and nf: "newest_first conv"
    and nrl: "\<forall>m \<in> set conv. \<not> rate_limited P m"
  shows "\<exists>s'. deleteBotMessagesFromDM P userId (initial_state conv)
                 = Some (Inr (length (filter (deletable P) conv)), s')
     \<and> history s' = filter (\<lambda>x. \<not> deletable P x) conv
     \<and> other_events (trace s') = UsersFetch userId # CreateDM # concat (map (message_events P) conv)
     \<and> fetches (trace s') = pages (length conv) + 1"
proof -
  let ?s = "emit [CreateDM] (emit [UsersFetch userId]
              (initial_state conv\<lparr>messagesDeleted := 0, lastMessageId := None\<rparr>))"
  have s: "history ?s = conv" "lastMessageId ?s = None" "messagesDeleted ?s = 0"
    "trace ?s = [UsersFetch userId, CreateDM]"
    by (simp_all add: emit_def initial_state_def)
  have o: "older (history ?s) (lastMessageId ?s) = conv"
    by (simp add: s older_def)
  have nf': "newest_first (history ?s)" using nf by (simp add: s)
  have nrl': "\<forall>m \<in> set (older (history ?s) (lastMessageId ?s)). \<not> rate_limited P m"
    using nrl by (simp only: o) 
  obtain s' where w: "while_loop P ?s = Some (None, s')"
    and d: "messagesDeleted s' = messagesDeleted ?s
              + length (filter (deletable P) (older (history ?s) (lastMessageId ?s)))"
    and h: "history s' = filter (\<lambda>x. msg_id x \<notin> msg_id `
              set (filter (deletable P) (older (history ?s) (lastMessageId ?s)))) (history ?s)"
    and t: "other_events (trace s') = other_events (trace ?s)
              @ concat (map (message_events P) (older (history ?s) (lastMessageId ?s)))"
    and f: "fetches (trace s') = fetches (trace ?s)
              + pages (length (older (history ?s) (lastMessageId ?s))) + 1"
    using while_loop_no_rate_limit [OF ff nf' nrl'] by blast
  note d = d [unfolded o] and h = h [unfolded o] and t = t [unfolded o] and f = f [unfolded o]
  have "deleteBotMessagesFromDM P userId (initial_state conv) = Some (Inr (messagesDeleted s'), s')"
    using assms(1,2) w by (simp add: deleteBotMessagesFromDM_def Let_def)
  moreover have "history s' = filter (\<lambda>x. \<not> deletable P x) conv"
    using h removed_by_id [OF nf] by (simp add: s)
  moreover have "other_events (trace s') = UsersFetch userId # CreateDM # concat (map (message_events P) conv)"
    using t by (simp add: s other_events_def)
  moreover have "fetches (trace s') = pages (length conv) + 1"
    using f by (simp add: s fetches_def)
  ultimately show ?thesis using d by (simp add: s)
qed

text \<open>
  C5. When the deletion faults of a run are none of them the rate-limit signal, the run is
  not aborted by them: \<^verbatim>\<open>message.delete()\<close> is called on every bot-authored message of
  the conversation, in order, whatever happened to the messages before it; each fault is
  logged with the identifier of its message; and the count returned is the number of
  bot-authored messages whose deletion succeeded, so that a failed message adds nothing to
  it and stays in the conversation.
\<close>

theorem other_deletion_faults_do_not_abort:
  assumes "users_fetch P = UserFound" and "create_dm_fault P = None"
    and "\<forall>c. fetch_fault P c = None"
    and "newest_first conv"
    and "\<forall>m \<in> set conv. \<not> rate_limited P m"
  shows "\<exists>s'. deleteBotMessagesFromDM P userId (initial_state conv)
                 = Some (Inr (length (filter (deletable P) conv)), s')
     \<and> delete_calls (trace s') = map msg_id (filter (by_bot P) conv)
     \<and> (\<forall>m \<in> set conv. \<forall>f. by_bot P m \<and> delete_fault P (msg_id m) = Some f \<longrightarrow>
           ConsoleError (FailedToDelete (msg_id m) (fault_message f)) \<in> set (trace s'))
     \<and> history s' = filter (\<lambda>x. \<not> deletable P x) conv"
proof -
  obtain s' where r: "deleteBotMessagesFromDM P userId (initial_state conv)
                 = Some (Inr (length (filter (deletable P) conv)), s')"
    and h: "history s' = filter (\<lambda>x. \<not> deletable P x) conv"
    and t: "other_events (trace s') = UsersFetch userId # CreateDM # concat (map (message_events P) conv)"
    using deleteBot_no_rate_limit [OF assms] by blast
  have "delete_calls (trace s') = delete_calls (other_events (trace s'))"
    by (simp add: delete_calls_other_events)
  then have dc: "delete_calls (trace s') = map msg_id (filter (by_bot P) conv)"
    by (simp add: t delete_calls_messages)
  have lg: "\<forall>m \<in> set conv. \<forall>f. by_bot P m \<and> delete_fault P (msg_id m) = Some f \<longrightarrow>
           ConsoleError (FailedToDelete (msg_id m) (fault_message f)) \<in> set (trace s')"
  proof (intro ballI allI impI)
    fix m f assume m: "m \<in> set conv" and "by_bot P m \<and> delete_fault P (msg_id m) = Some f"
    then have "ConsoleError (FailedToDelete (msg_id m) (fault_message f)) \<in> set (message_events P m)"
      by (simp add: message_events_def by_bot_def)
    then have "ConsoleError (FailedToDelete (msg_id m) (fault_message f)) \<in> set (other_events (trace s'))"
      using m unfolding t by auto
    then show "ConsoleError (FailedToDelete (msg_id m) (fault_message f)) \<in> set (trace s')"
      by (rule in_other_events)
  qed
  show ?thesis using r dc lg h by blast
qed


theorem other_deletion_faults_do_not_abort_witness:
  "newest_first [\<lparr>msg_id = 3, author_id = 7\<rparr>, \<lparr>msg_id = 2, author_id = 7\<rparr>, \<lparr>msg_id = 1, author_id = 7\<rparr>]
   \<and> list_all (\<lambda>m. \<not> rate_limited flaky_platform m)
        [\<lparr>msg_id = 3, author_id = 7\<rparr>, \<lparr>msg_id = 2, author_id = 7\<rparr>, \<lparr>msg_id = 1, author_id = 7\<rparr>]
   \<and> (\<exists>s'. deleteBotMessagesFromDM flaky_platform None
               (initial_state [\<lparr>msg_id = 3, author_id = 7\<rparr>, \<lparr>msg_id = 2, author_id = 7\<rparr>,
                               \<lparr>msg_id = 1, author_id = 7\<rparr>])
             = Some (Inr 2, s')
          \<and> delete_calls (trace s') = [3, 2, 1]
          \<and> ConsoleError (FailedToDelete 2 (lit ''Unknown Message'')) \<in> set (trace s')
          \<and> history s' = [\<lparr>msg_id = 2, author_id = 7\<rparr>])"
proof -
  let ?conv = "[\<lparr>msg_id = 3, author_id = 7\<rparr>, \<lparr>msg_id = 2, author_id = 7\<rparr>, \<lparr>msg_id = 1, author_id = 7\<rparr>]"
  have p: "users_fetch flaky_platform = UserFound" "create_dm_fault flaky_platform = None"
    "\<forall>c. fetch_fault flaky_platform c = None"
    by (simp_all add: flaky_platform_def example_platform_def)
  have nf: "newest_first ?conv" by (simp add: newest_first_def)
  have nrl: "\<forall>m \<in> set ?conv. \<not> rate_limited flaky_platform m"
    by (simp add: rate_limited_def flaky_platform_def example_platform_def)
  have d: "filter (deletable flaky_platform) ?conv
             = [\<lparr>msg_id = 3, author_id = 7\<rparr>, \<lparr>msg_id = 1, author_id = 7\<rparr>]"
    and nd: "filter (\<lambda>x. \<not> deletable flaky_platform x) ?conv = [\<lparr>msg_id = 2, author_id = 7\<rparr>]"
    and b: "filter (by_bot flaky_platform) ?conv = ?conv"
    and f: "by_bot flaky_platform \<lparr>msg_id = 2, author_id = 7\<rparr>
            \<and> delete_fault flaky_platform (msg_id \<lparr>msg_id = 2, author_id = 7\<rparr>)
                = Some (Fault (Some 10008) (lit ''Unknown Message''))"
    by (simp_all add: deletable_def by_bot_def flaky_platform_def example_platform_def)
  obtain s' where "deleteBotMessagesFromDM flaky_platform None (initial_state ?conv)
                 = Some (Inr (length (filter (deletable flaky_platform) ?conv)), s')"
     and "delete_calls (trace s') = map msg_id (filter (by_bot flaky_platform) ?conv)"
     and l: "\<forall>m \<in> set ?conv. \<forall>f. by_bot flaky_platform m \<and> delete_fault flaky_platform (msg_id m) = Some f \<longrightarrow>
           ConsoleError (FailedToDelete (msg_id m) (fault_message f)) \<in> set (trace s')"
     and "history s' = filter (\<lambda>x. \<not> deletable flaky_platform x) ?conv"
    using other_deletion_faults_do_not_abort [OF p nf nrl, of None] by blast
  moreover have "ConsoleError (FailedToDelete 2 (lit ''Unknown Message'')) \<in> set (trace s')"
    using l f by fastforce
  moreover have "list_all (\<lambda>m. \<not> rate_limited flaky_platform m) ?conv"
    using nrl by (simp add: list_all_iff)
  moreover have "length (filter (deletable flaky_platform) ?conv) = 2"
    and "map msg_id (filter (by_bot flaky_platform) ?conv) = [3, 2, 1]"
    unfolding d b by simp_all
  ultimately show ?thesis using nf unfolding nd by metis
qed

lemma events_when_all_succeed:
  "\<forall>m \<in> set ms. by_bot P m \<longrightarrow> delete_fault P (msg_id m) = None \<Longrightarrow>
   concat (map (message_events P) ms)
     = concat (map (\<lambda>m. [Delete (msg_id m), ConsoleLog (DeletedMessageID (msg_id m)), Delay 1000])
                (filter (by_bot P) ms))"
  by (induction ms) (simp_all add: message_events_def by_bot_def DELAY_MS_def)

lemma pages_eq: "pages n = (n + 49) div 50"
  by (simp add: pages_def BATCH_SIZE_def)

text \<open>
  C2 (as amended). On a conversation of M messages kept newest first, N of them written by
  the bot, when no call of the platform fails, the purge returns N. It calls
  \<^verbatim>\<open>message.delete()\<close> once on each bot-authored message, in order, and after each
  deletion it logs the identifier and waits 1000 ms, also after the last one. It fetches
  ceil(M/50) + 1 pages: every page of the conversation and the empty page that ends the
  loop. The conversation is left with the messages of other authors.
\<close>

theorem purge_deletes_every_bot_message:
  assumes "users_fetch P = UserFound" and "create_dm_fault P = None"
    and "\<forall>c. fetch_fault P c = None"
    and "newest_first conv"
    and "\<forall>m \<in> set conv. by_bot P m \<longrightarrow> delete_fault P (msg_id m) = None"
  shows "\<exists>s'. deleteBotMessagesFromDM P userId (initial_state conv)
                 = Some (Inr (length (filter (by_bot P) conv)), s')
     \<and> fetches (trace s') = (length conv + 49) div 50 + 1
     \<and> other_events (trace s')
         = UsersFetch userId # CreateDM
           # concat (map (\<lambda>m. [Delete (msg_id m), ConsoleLog (DeletedMessageID (msg_id m)), Delay 1000])
                      (filter (by_bot P) conv))
     \<and> delete_calls (trace s') = map msg_id (filter (by_bot P) conv)
     \<and> distinct (delete_calls (trace s'))
     \<and> history s' = filter (\<lambda>m. \<not> by_bot P m) conv"
proof -
  have nrl: "\<forall>m \<in> set conv. \<not> rate_limited P m"
    using assms(5) by (auto simp add: rate_limited_def by_bot_def)
  have del: "\<And>m. m \<in> set conv \<Longrightarrow> deletable P m = by_bot P m"
    using assms(5) by (auto simp add: deletable_def by_bot_def)
  have fd: "filter (deletable P) conv = filter (by_bot P) conv"
    and fn: "filter (\<lambda>x. \<not> deletable P x) conv = filter (\<lambda>m. \<not> by_bot P m) conv"
    using del by (auto intro: filter_cong)
  obtain s' where r: "deleteBotMessagesFromDM P userId (initial_state conv)
                 = Some (Inr (length (filter (deletable P) conv)), s')"
     and h: "history s' = filter (\<lambda>x. \<not> deletable P x) conv"
     and t: "other_events (trace s') = UsersFetch userId # CreateDM # concat (map (message_events P) conv)"
     and f: "fetches (trace s') = pages (length conv) + 1"
    using deleteBot_no_rate_limit [OF assms(1-4) nrl] by blast
  have "delete_calls (trace s') = delete_calls (other_events (trace s'))"
    by (simp add: delete_calls_other_events)
  then have dc: "delete_calls (trace s') = map msg_id (filter (by_bot P) conv)"
    by (simp add: t delete_calls_messages)
  have "distinct (map msg_id (filter (by_bot P) conv))"
    using newest_first_distinct [OF assms(4)] by (rule distinct_map_filter)
  then show ?thesis
    using r h t f dc events_when_all_succeed [OF assms(5)]
    by (simp add: fd fn pages_eq)
qed

theorem purge_deletes_every_bot_message_witness:
  "newest_first [\<lparr>msg_id = 3, author_id = 7\<rparr>, \<lparr>msg_id = 2, author_id = 9\<rparr>, \<lparr>msg_id = 1, author_id = 7\<rparr>]
   \<and> (\<exists>s'. deleteBotMessagesFromDM example_platform None
               (initial_state [\<lparr>msg_id = 3, author_id = 7\<rparr>, \<lparr>msg_id = 2, author_id = 9\<rparr>,
                               \<lparr>msg_id = 1, author_id = 7\<rparr>])
             = Some (Inr 2, s')
          \<and> fetches (trace s') = 2
          \<and> other_events (trace s')
              = [UsersFetch None, CreateDM,
                 Delete 3, ConsoleLog (DeletedMessageID 3), Delay 1000,
                 Delete 1, ConsoleLog (DeletedMessageID 1), Delay 1000]
          \<and> delete_calls (trace s') = [3, 1]
          \<and> history s' = [\<lparr>msg_id = 2, author_id = 9\<rparr>])"
proof -
  let ?conv = "[\<lparr>msg_id = 3, author_id = 7\<rparr>, \<lparr>msg_id = 2, author_id = 9\<rparr>, \<lparr>msg_id = 1, author_id = 7\<rparr>]"
  have p: "users_fetch example_platform = UserFound" "create_dm_fault example_platform = None"
    "\<forall>c. fetch_fault example_platform c = None"
    by (simp_all add: example_platform_def)
  have nf: "newest_first ?conv" by (simp add: newest_first_def)
  have ok: "\<forall>m \<in> set ?conv. by_bot example_platform m \<longrightarrow> delete_fault example_platform (msg_id m) = None"
    by (simp add: example_platform_def)
  have b: "filter (by_bot example_platform) ?conv
             = [\<lparr>msg_id = 3, author_id = 7\<rparr>, \<lparr>msg_id = 1, author_id = 7\<rparr>]"
    and nb: "filter (\<lambda>m. \<not> by_bot example_platform m) ?conv = [\<lparr>msg_id = 2, author_id = 9\<rparr>]"
    by (simp_all add: by_bot_def example_platform_def)
  obtain s' where r: "deleteBotMessagesFromDM example_platform None (initial_state ?conv)
                 = Some (Inr (length (filter (by_bot example_platform) ?conv)), s')"
    and f: "fetches (trace s') = (length ?conv + 49) div 50 + 1"
    and o: "other_events (trace s')
         = UsersFetch None # CreateDM
           # concat (map (\<lambda>m. [Delete (msg_id m), ConsoleLog (DeletedMessageID (msg_id m)), Delay 1000])
                      (filter (by_bot example_platform) ?conv))"
    and dc: "delete_calls (trace s') = map msg_id (filter (by_bot example_platform) ?conv)"
    and h: "history s' = filter (\<lambda>m. \<not> by_bot example_platform m) ?conv"
    using purge_deletes_every_bot_message [OF p nf ok, of None] by blast
  have "deleteBotMessagesFromDM example_platform None (initial_state ?conv) = Some (Inr 2, s')"
    using r unfolding b by simp
  moreover have "fetches (trace s') = 2" using f by simp
  moreover have "other_events (trace s')
              = [UsersFetch None, CreateDM,
                 Delete 3, ConsoleLog (DeletedMessageID 3), Delay 1000,
                 Delete 1, ConsoleLog (DeletedMessageID 1), Delay 1000]"
    using o unfolding b by simp
  moreover have "delete_calls (trace s') = [3, 1]" using dc unfolding b by simp
  moreover have "history s' = [\<lparr>msg_id = 2, author_id = 9\<rparr>]" using h unfolding nb by simp
  ultimately show ?thesis using nf by blast
qed

text \<open>
  C2, as stated, fails on a conversation that holds one message, written by the bot: the
  run fetches twice, not ceil(1/50) = 1 times (the second fetch is the empty one that ends
  the loop), and it waits 1000 ms after its only deletion, which is not a wait between two
  deletions.
\<close>

theorem purge_one_bot_message_fetches_twice:
  "deleteBotMessagesFromDM example_platform None (initial_state [\<lparr>msg_id = 1, author_id = 7\<rparr>])
     = Some (Inr 1, \<lparr>messagesDeleted = 1, lastMessageId = Some 1, history = [],
         trace = [UsersFetch None, CreateDM, Fetch 50 None, Delete 1,
                  ConsoleLog (DeletedMessageID 1), Delay 1000, Fetch 50 (Some 1)]\<rparr>)
   \<and> fetches [UsersFetch None, CreateDM, Fetch 50 None, Delete 1,
               ConsoleLog (DeletedMessageID 1), Delay 1000, Fetch 50 (Some 1)] = 2
   \<and> pages 1 = 1"
proof -
  have "deleteBotMessagesFromDM example_platform None (initial_state [\<lparr>msg_id = 1, author_id = 7\<rparr>])
     = Some (Inr 1, \<lparr>messagesDeleted = 1, lastMessageId = Some 1, history = [],
         trace = [UsersFetch None, CreateDM, Fetch 50 None, Delete 1,
                  ConsoleLog (DeletedMessageID 1), Delay 1000, Fetch 50 (Some 1)]\<rparr>)"
    apply (simp add: deleteBotMessagesFromDM_def example_platform_def initial_state_def emit_def)
    apply (subst while_loop.simps, simp add: run_simps)
    apply (subst while_loop.simps, simp add: run_simps)
    done
  then show ?thesis by (simp add: fetches_def pages_def BATCH_SIZE_def)
qed

text \<open>
  C4 (as amended). On a conversation of M messages kept newest first, none of them written
  by the bot, when no call of the platform fails, the purge returns 0, deletes nothing and
  leaves the conversation as it was. It fetches ceil(M/50) + 1 pages, which is one page
  exactly when the conversation is empty.
\<close>

theorem purge_without_bot_messages:
  assumes "users_fetch P = UserFound" and "create_dm_fault P = None"
    and "\<forall>c. fetch_fault P c = None"
    and "newest_first conv"
    and "\<forall>m \<in> set conv. \<not> by_bot P m"
  shows "\<exists>s'. deleteBotMessagesFromDM P userId (initial_state conv) = Some (Inr 0, s')
     \<and> fetches (trace s') = (length conv + 49) div 50 + 1
     \<and> (fetches (trace s') = 1 \<longleftrightarrow> conv = [])
     \<and> delete_calls (trace s') = []
     \<and> history s' = conv"
proof -
  have nrl: "\<forall>m \<in> set conv. \<not> rate_limited P m"
    using assms(5) by (simp add: rate_limited_def by_bot_def)
  have fd: "filter (deletable P) conv = []" and fn: "filter (\<lambda>x. \<not> deletable P x) conv = conv"
    and fb: "filter (by_bot P) conv = []"
    using assms(5) by (simp_all add: deletable_def by_bot_def)
  obtain s' where r: "deleteBotMessagesFromDM P userId (initial_state conv)
                 = Some (Inr (length (filter (deletable P) conv)), s')"
     and h: "history s' = filter (\<lambda>x. \<not> deletable P x) conv"
     and t: "other_events (trace s') = UsersFetch userId # CreateDM # concat (map (message_events P) conv)"
     and f: "fetches (trace s') = pages (length conv) + 1"
    using deleteBot_no_rate_limit [OF assms(1-4) nrl] by blast
  have "delete_calls (trace s') = delete_calls (other_events (trace s'))"
    by (simp add: delete_calls_other_events)
  then have dc: "delete_calls (trace s') = []"
    by (simp add: t delete_calls_messages fb)
  have "((length conv + 49) div 50 = 0) = (conv = [])"
    by (simp add: div_eq_0_iff)
  then show ?thesis
    using r h f dc by (simp add: fd fn pages_eq)
qed

theorem purge_without_bot_messages_witness:
  "newest_first [\<lparr>msg_id = 2, author_id = 9\<rparr>, \<lparr>msg_id = 1, author_id = 9\<rparr>]
   \<and> list_all (\<lambda>m. \<not> by_bot example_platform m)
        [\<lparr>msg_id = 2, author_id = 9\<rparr>, \<lparr>msg_id = 1, author_id = 9\<rparr>]
   \<and> (\<exists>s'. deleteBotMessagesFromDM example_platform None
               (initial_state [\<lparr>msg_id = 2, author_id = 9\<rparr>, \<lparr>msg_id = 1, author_id = 9\<rparr>])
             = Some (Inr 0, s')
          \<and> fetches (trace s') = 2
          \<and> delete_calls (trace s') = []
          \<and> history s' = [\<lparr>msg_id = 2, author_id = 9\<rparr>, \<lparr>msg_id = 1, author_id = 9\<rparr>])"
proof -
  let ?conv = "[\<lparr>msg_id = 2, author_id = 9\<rparr>, \<lparr>msg_id = 1, author_id = 9\<rparr>]"
  have p: "users_fetch example_platform = UserFound" "create_dm_fault example_platform = None"
    "\<forall>c. fetch_fault example_platform c = None"
    by (simp_all add: example_platform_def)
  have nf: "newest_first ?conv" by (simp add: newest_first_def)
  have nb: "\<forall>m \<in> set ?conv. \<not> by_bot example_platform m"
    by (simp add: by_bot_def example_platform_def)
  obtain s' where r: "deleteBotMessagesFromDM example_platform None (initial_state ?conv)
                 = Some (Inr 0, s')"
    and f: "fetches (trace s') = (length ?conv + 49) div 50 + 1"
    and dc: "delete_calls (trace s') = []"
    and h: "history s' = ?conv"
    using purge_without_bot_messages [OF p nf nb, of None] by blast
  have "fetches (trace s') = 2" using f by simp
  moreover have "list_all (\<lambda>m. \<not> by_bot example_platform m) ?conv"
    using nb by (simp add: list_all_iff)
  ultimately show ?thesis using nf r dc h by blast
qed

text \<open>
  C4, as stated, fails on a conversation that holds one message written by somebody else:
  the run returns 0, as claimed, but fetches twice.
\<close>

theorem purge_one_foreign_message_fetches_twice:
  "deleteBotMessagesFromDM example_platform None (initial_state [\<lparr>msg_id = 1, author_id = 9\<rparr>])
     = Some (Inr 0, \<lparr>messagesDeleted = 0, lastMessageId = Some 1,
         history = [\<lparr>msg_id = 1, author_id = 9\<rparr>],
         trace = [UsersFetch None, CreateDM, Fetch 50 None, Fetch 50 (Some 1)]\<rparr>)
   \<and> fetches [UsersFetch None, CreateDM, Fetch 50 None, Fetch 50 (Some 1)] = 2"
proof -
  have "deleteBotMessagesFromDM example_platform None (initial_state [\<lparr>msg_id = 1, author_id = 9\<rparr>])
     = Some (Inr 0, \<lparr>messagesDeleted = 0, lastMessageId = Some 1,
         history = [\<lparr>msg_id = 1, author_id = 9\<rparr>],
         trace = [UsersFetch None, CreateDM, Fetch 50 None, Fetch 50 (Some 1)]\<rparr>)"
    apply (simp add: deleteBotMessagesFromDM_def example_platform_def initial_state_def emit_def)
    apply (subst while_loop.simps, simp add: run_simps)
    apply (subst while_loop.simps, simp add: run_simps)
    done
  then show ?thesis by (simp add: fetches_def)
qed

section \<open>A purge that meets the rate-limit fault\<close>

lemma deleted_lines_append: "deleted_lines (a @ b) = deleted_lines a @ deleted_lines b"
  by (induction a rule: deleted_lines.induct) simp_all

lemma deleted_lines_other_events: "deleted_lines (other_events t) = deleted_lines t"
  by (induction t rule: deleted_lines.induct) (simp_all add: other_events_def)

lemma deleted_lines_messages:
  "deleted_lines (concat (map (message_events P) ms)) = map msg_id (filter (deletable P) ms)"
  by (induction ms)
    (simp_all add: deleted_lines_append message_events_def deletable_def split: option.splits)

lemma no_Finished_message: "ConsoleLog (Finished n) \<notin> set (message_events P x)"
  by (simp add: message_events_def split: option.splits)

lemma other_events_mem: "e \<in> set t \<Longrightarrow> \<not> is_fetch e \<Longrightarrow> e \<in> set (other_events t)"
  by (simp add: other_events_def)

lemma rate_limit_message:
  "failed_to_delete (Error (lit ''Rate limit exceeded''))
     = Error (lit ''Failed to delete messages: Rate limit exceeded'')"
  by (simp add: failed_to_delete_def lit_def)

lemma rate_limit_exit:
  "str_includes (lit ''Failed to delete messages: Rate limit exceeded'') (lit ''Rate limit'')"
  by (simp add: lit_def)

lemma next_segment_append: "next_segment es = (seg, rest) \<Longrightarrow> seg @ rest = es"
  by (induction es arbitrary: seg rest) (auto split: if_splits prod.splits)

lemma undisturbed_run:
  "finish G (session_after G [Ready]) = fst (ready_handler G) @ [Exit (snd (ready_handler G))]"
proof -
  obtain seg rest where n: "next_segment (fst (ready_handler G)) = (seg, rest)"
    by (cases "next_segment (fst (ready_handler G))")
  then have "seg @ rest = fst (ready_handler G)" by (rule next_segment_append)
  then show ?thesis
    using n by (auto simp add: finish_def session_after_def connected_def advance_def)
qed

text \<open>
  The signals \<open>[Ready]\<close> stand for every run in which the ready signal arrives and no
  client fault and no failure of the login does: in whatever order the awaited calls
  return, the run is the undisturbed run of the ready handler, followed by its exit.
\<close>

lemma advance_on_script:
  assumes "\<not> exited s" and "\<not> login_failed s" and "waiting s = []"
    and "emitted s @ es = fst (ready_handler G)"
  shows "on_script G (advance G es s)"
proof -
  obtain seg rest where n: "next_segment es = (seg, rest)"
    by (cases "next_segment es")
  then have "seg @ rest = es" by (rule next_segment_append)
  then show ?thesis
    using assms n by (auto simp add: advance_def on_script_def)
qed

lemma deliver_on_script:
  assumes "on_script G s" and "quiet sig"
  shows "on_script G (deliver G s sig)"
proof (cases "exited s")
  case True
  then show ?thesis using assms(1) by (cases sig) simp_all
next
  case False
  have nf: "\<not> login_failed s" using assms(1) by (simp add: on_script_def)
  show ?thesis
  proof (cases sig)
    case Ready
    show ?thesis
    proof (cases "pending s")
      case None
      then have "waiting s = []" and "emitted s @ fst (ready_handler G) = fst (ready_handler G)"
        using assms(1) False by (simp_all add: on_script_def)
      then show ?thesis
        using Ready None False nf advance_on_script [OF False nf] by simp
    next
      case (Some r)
      then show ?thesis using Ready False nf assms(1) by simp
    qed
  next
    case CallReturns
    show ?thesis
    proof (cases "pending s")
      case None
      then show ?thesis using CallReturns False assms(1) by simp
    next
      case (Some r)
      show ?thesis
      proof (cases r)
        case Nil
        then show ?thesis using CallReturns Some False assms(1) by simp
      next
        case (Cons e es)
        then have "waiting s = []" and "emitted s @ (e # es) = fst (ready_handler G)"
          using assms(1) False Some by (simp_all add: on_script_def)
        then show ?thesis
          using CallReturns Some Cons False advance_on_script [OF False nf] by simp
      qed
    qed
  next
    case (ClientError f)
    then show ?thesis using assms(2) by (simp add: quiet_def)
  next
    case (LoginRejected f)
    then show ?thesis using assms(2) by (simp add: quiet_def)
  next
    case (DestroyReturns k)
    show ?thesis
    proof (cases "length (waiting s) \<le> k")
      case True
      then show ?thesis using DestroyReturns assms(1) by simp
    next
      case notle: False
      then obtain r where "pending s = Some r" and "r = []" and "k = 0"
        and "waiting s = [[Exit (snd (ready_handler G))]]"
        and "emitted s = fst (ready_handler G)"
        using assms(1) False
        by (cases "pending s") (auto simp add: on_script_def split: if_splits)
      then show ?thesis
        using DestroyReturns False nf by (simp add: on_script_def)
    qed
  qed
qed

lemma foldl_on_script:
  "on_script G s \<Longrightarrow> list_all quiet signals \<Longrightarrow> on_script G (foldl (deliver G) s signals)"
  by (induction signals arbitrary: s) (simp_all add: deliver_on_script)

lemma foldl_started:
  "pending s \<noteq> None \<or> exited s \<Longrightarrow>
   pending (foldl (deliver G) s signals) \<noteq> None \<or> exited (foldl (deliver G) s signals)"
proof (induction signals arbitrary: s)
  case Nil
  then show ?case by simp
next
  case (Cons sig signals)
  have "pending (deliver G s sig) \<noteq> None \<or> exited (deliver G s sig)"
    using Cons.prems
    by (cases sig; cases "pending s"; cases "next_segment (the (pending s))")
      (auto simp add: advance_def split: list.splits)
  then show ?case using Cons.IH by simp
qed

lemma ready_starts:
  assumes "on_script G s" and "list_all quiet signals" and "Ready \<in> set signals"
  shows "pending (foldl (deliver G) s signals) \<noteq> None \<or> exited (foldl (deliver G) s signals)"
  using assms
proof (induction signals arbitrary: s)
  case Nil
  then show ?case by simp
next
  case (Cons sig signals)
  have o: "on_script G (deliver G s sig)"
    using Cons.prems(1,2) by (simp add: deliver_on_script)
  show ?case
  proof (cases "sig = Ready")
    case True
    have "pending (deliver G s Ready) \<noteq> None \<or> exited (deliver G s Ready)"
      using Cons.prems(1)
      by (cases "pending s"; cases "next_segment (fst (ready_handler G))")
        (auto simp add: advance_def on_script_def)
    then show ?thesis using True foldl_started by simp
  next
    case False
    then have "Ready \<in> set signals" using Cons.prems(3) by simp
    then show ?thesis using Cons.IH [OF o] Cons.prems(2) by simp
  qed
qed

lemma quiet_run:
  assumes "list_all quiet signals" and "Ready \<in> set signals"
  shows "finish G (session_after G signals)
           = fst (ready_handler G) @ [Exit (snd (ready_handler G))]"
proof -
  let ?s = "session_after G signals"
  have c: "on_script G connected" by (simp add: on_script_def connected_def)
  have o: "on_script G ?s"
    unfolding session_after_def using foldl_on_script [OF c assms(1)] .
  have "pending ?s \<noteq> None \<or> exited ?s"
    unfolding session_after_def using ready_starts [OF c assms] .
  then show ?thesis
    using o by (cases "pending ?s") (auto simp add: on_script_def finish_def)
qed

lemma deleteBot_rate_limited:
  assumes "users_fetch P = UserFound" and "create_dm_fault P = None"
    and ff: "\<forall>c. fetch_fault P c = None"
    and nf: "newest_first (history s0)"
    and conv: "history s0 = pre @ m # post"
    and nrl: "\<forall>x \<in> set pre. \<not> rate_limited P x"
    and rl: "rate_limited P m"
  shows "\<exists>s' t. deleteBotMessagesFromDM P userId s0
                 = Some (Inl (Error (lit ''Failed to delete messages: Rate limit exceeded'')), s')
     \<and> messagesDeleted s' = length (filter (deletable P) pre)
     \<and> trace s' = t @ [Delete (msg_id m)]
     \<and> other_events t = other_events (trace s0)
          @ UsersFetch userId # CreateDM # concat (map (message_events P) pre)"
proof -
  let ?s = "emit [CreateDM] (emit [UsersFetch userId]
              (s0\<lparr>messagesDeleted := 0, lastMessageId := None\<rparr>))"
  have s: "history ?s = history s0" "lastMessageId ?s = None" "messagesDeleted ?s = 0"
    "trace ?s = trace s0 @ [UsersFetch userId, CreateDM]"
    by (simp_all add: emit_def)
  have nf': "newest_first (history ?s)" using nf by (simp add: s)
  have o: "older (history ?s) (lastMessageId ?s) = pre @ m # post"
    by (simp add: s older_def conv)
  obtain s' t where w: "while_loop P ?s = Some (Some (Error (lit ''Rate limit exceeded'')), s')"
    and d: "messagesDeleted s' = messagesDeleted ?s + length (filter (deletable P) pre)"
    and t: "trace s' = t @ [Delete (msg_id m)]"
    and e: "other_events t = other_events (trace ?s) @ concat (map (message_events P) pre)"
    using while_loop_rate_limited [OF ff nf' o nrl rl] by blast
  have "deleteBotMessagesFromDM P userId s0
          = Some (Inl (failed_to_delete (Error (lit ''Rate limit exceeded''))), s')"
    using assms(1,2) w by (simp add: deleteBotMessagesFromDM_def Let_def)
  moreover have "other_events t = other_events (trace s0)
          @ UsersFetch userId # CreateDM # concat (map (message_events P) pre)"
    using e by (simp add: s other_events_def)
  ultimately show ?thesis using d t by (simp add: s rate_limit_message)
qed

text \<open>
  C3 (as amended). Let the conversation be kept newest first and let the first deletion
  fault with the rate-limit code 50001 occur on the bot-authored message \<open>m\<close>, no other
  call of the platform failing. Then the run aborts at once: the failing
  \<^verbatim>\<open>message.delete()\<close> is its last call of the platform but for the teardown of the
  client, it logs the error \<^verbatim>\<open>Failed to delete messages: Rate limit exceeded\<close>, destroys
  the client and exits with code 3. The calls of \<^verbatim>\<open>message.delete()\<close> before it are
  those on the bot-authored messages before \<open>m\<close>, and the log has one
  \<^verbatim>\<open>Deleted message ID\<close> line for each of them that succeeded. No count is reported:
  \<open>deleteBotMessagesFromDM\<close> ends with the error, its tally (which stands at the number of
  successful deletions) is dropped, and the line with the count is never printed.
\<close>

theorem rate_limit_aborts_run:
  assumes "missingVars env = []"
    and "users_fetch P = UserFound" and "create_dm_fault P = None"
    and "\<forall>c. fetch_fault P c = None"
    and "newest_first conv"
    and "conv = pre @ m # post"
    and "\<forall>x \<in> set pre. \<not> rate_limited P x"
    and "rate_limited P m"
  shows "(\<exists>t conv'. purger_main env P [Ready] conv
            = Some (t @ [Delete (msg_id m),
                         ConsoleError (ErrorMessage (lit ''Failed to delete messages: Rate limit exceeded'')),
                         Destroy, Exit 3], conv')
          \<and> delete_calls t = map msg_id (filter (by_bot P) pre)
          \<and> deleted_lines t = map msg_id (filter (deletable P) pre)
          \<and> (\<forall>n. ConsoleLog (Finished n) \<notin> set t))
     \<and> (\<exists>s'. deleteBotMessagesFromDM P userId (initial_state conv)
            = Some (Inl (Error (lit ''Failed to delete messages: Rate limit exceeded'')), s')
          \<and> messagesDeleted s' = length (filter (deletable P) pre))"
proof
  have v: "validateEnvironment env = Inr ()"
    using assms(1) by (simp add: validateEnvironment_def)
  have nf: "newest_first (history (initial_state conv))"
    and c: "history (initial_state conv) = pre @ m # post"
    using assms(5,6) by (simp_all add: initial_state_def)
  obtain s' t0 where r: "deleteBotMessagesFromDM P (env DM_USER_ID) (initial_state conv)
                 = Some (Inl (Error (lit ''Failed to delete messages: Rate limit exceeded'')), s')"
    and t0: "trace s' = t0 @ [Delete (msg_id m)]"
    and o: "other_events t0 = other_events (trace (initial_state conv))
          @ UsersFetch (env DM_USER_ID) # CreateDM # concat (map (message_events P) pre)"
    using deleteBot_rate_limited [OF assms(2,3,4) nf c assms(7,8)] by blast
  define t where "t = [CreateClient, Login (env BOT_TOKEN), ConsoleLog LoggedInAs] @ t0"
  have o': "other_events t = [CreateClient, Login (env BOT_TOKEN), ConsoleLog LoggedInAs,
      UsersFetch (env DM_USER_ID), CreateDM] @ concat (map (message_events P) pre)"
    using o by (simp add: t_def other_events_def initial_state_def)
  have h: "purger_handler P env conv
      = Some (ConsoleLog LoggedInAs # t0 @ [Delete (msg_id m),
                ConsoleError (ErrorMessage (lit ''Failed to delete messages: Rate limit exceeded'')),
                Destroy], PC_RATE_LIMIT)"
    using rate_limit_exit by (simp add: purger_handler_def r t0)
  have "\<exists>conv'. purger_main env P [Ready] conv
            = Some (t @ [Delete (msg_id m),
                         ConsoleError (ErrorMessage (lit ''Failed to delete messages: Rate limit exceeded'')),
                         Destroy, Exit 3], conv')"
    by (simp add: purger_main_def v h undisturbed_run purger_program_def t_def
        PC_RATE_LIMIT_def Let_def)
  then obtain conv' where m: "purger_main env P [Ready] conv
            = Some (t @ [Delete (msg_id m),
                         ConsoleError (ErrorMessage (lit ''Failed to delete messages: Rate limit exceeded'')),
                         Destroy, Exit 3], conv')"
    by blast
  have "delete_calls t = delete_calls (other_events t)"
    by (simp add: delete_calls_other_events)
  then have dc: "delete_calls t = map msg_id (filter (by_bot P) pre)"
    unfolding o' by (simp add: delete_calls_append delete_calls_messages)
  have "deleted_lines t = deleted_lines (other_events t)"
    by (simp add: deleted_lines_other_events)
  then have dl: "deleted_lines t = map msg_id (filter (deletable P) pre)"
    unfolding o' by (simp add: deleted_lines_append deleted_lines_messages)
  have nfin: "\<forall>n. ConsoleLog (Finished n) \<notin> set t"
  proof
    fix n
    have "ConsoleLog (Finished n) \<notin> set (other_events t)"
      unfolding o' by (simp add: no_Finished_message)
    then show "ConsoleLog (Finished n) \<notin> set t"
      using other_events_mem [of "ConsoleLog (Finished n)" t] by auto
  qed
  show "\<exists>t conv'. purger_main env P [Ready] conv
            = Some (t @ [Delete (msg_id m),
                         ConsoleError (ErrorMessage (lit ''Failed to delete messages: Rate limit exceeded'')),
                         Destroy, Exit 3], conv')
          \<and> delete_calls t = map msg_id (filter (by_bot P) pre)
          \<and> deleted_lines t = map msg_id (filter (deletable P) pre)
          \<and> (\<forall>n. ConsoleLog (Finished n) \<notin> set t)"
    using m dc dl nfin by blast
next
  have nf: "newest_first (history (initial_state conv))"
    and c: "history (initial_state conv) = pre @ m # post"
    using assms(5,6) by (simp_all add: initial_state_def)
  show "\<exists>s'. deleteBotMessagesFromDM P userId (initial_state conv)
            = Some (Inl (Error (lit ''Failed to delete messages: Rate limit exceeded'')), s')
          \<and> messagesDeleted s' = length (filter (deletable P) pre)"
    using deleteBot_rate_limited [OF assms(2,3,4) nf c assms(7,8)] by blast
qed


theorem rate_limit_aborts_run_witness:
  "missingVars example_env = []
   \<and> newest_first [\<lparr>msg_id = 3, author_id = 7\<rparr>, \<lparr>msg_id = 2, author_id = 9\<rparr>,
                    \<lparr>msg_id = 1, author_id = 7\<rparr>, \<lparr>msg_id = 0, author_id = 7\<rparr>]
   \<and> rate_limited limited_platform \<lparr>msg_id = 1, author_id = 7\<rparr>
   \<and> (\<exists>t conv'. purger_main example_env limited_platform [Ready]
          [\<lparr>msg_id = 3, author_id = 7\<rparr>, \<lparr>msg_id = 2, author_id = 9\<rparr>,
           \<lparr>msg_id = 1, author_id = 7\<rparr>, \<lparr>msg_id = 0, author_id = 7\<rparr>]
        = Some (t @ [Delete 1,
                     ConsoleError (ErrorMessage (lit ''Failed to delete messages: Rate limit exceeded'')),
                     Destroy, Exit 3], conv')
      \<and> delete_calls t = [3] \<and> deleted_lines t = [3])"
proof -
  let ?pre = "[\<lparr>msg_id = 3, author_id = 7\<rparr>, \<lparr>msg_id = 2, author_id = 9\<rparr>]"
  let ?m = "\<lparr>msg_id = 1, author_id = 7\<rparr>"
  let ?post = "[\<lparr>msg_id = 0, author_id = 7\<rparr>]"
  let ?conv = "[\<lparr>msg_id = 3, author_id = 7\<rparr>, \<lparr>msg_id = 2, author_id = 9\<rparr>,
                \<lparr>msg_id = 1, author_id = 7\<rparr>, \<lparr>msg_id = 0, author_id = 7\<rparr>]"
  have e: "missingVars example_env = []"
    by (simp add: missingVars_def REQUIRED_ENV_VARS_def unset_def example_env_def lit_def)
  have p: "users_fetch limited_platform = UserFound"
    "create_dm_fault limited_platform = None" "\<forall>c. fetch_fault limited_platform c = None"
    by (simp_all add: limited_platform_def example_platform_def)
  have nf: "newest_first ?conv" by (simp add: newest_first_def)
  have c: "?conv = ?pre @ ?m # ?post" by simp
  have nrl: "\<forall>x \<in> set ?pre. \<not> rate_limited limited_platform x"
    and rl: "rate_limited limited_platform ?m"
    by (simp_all add: rate_limited_def limited_platform_def example_platform_def)
  have b: "map msg_id (filter (by_bot limited_platform) ?pre) = [3]"
    and d: "map msg_id (filter (deletable limited_platform) ?pre) = [3]"
    by (simp_all add: by_bot_def deletable_def limited_platform_def example_platform_def)
  obtain t conv' where "purger_main example_env limited_platform [Ready] ?conv
            = Some (t @ [Delete (msg_id ?m),
                         ConsoleError (ErrorMessage (lit ''Failed to delete messages: Rate limit exceeded'')),
                         Destroy, Exit 3], conv')"
    and "delete_calls t = map msg_id (filter (by_bot limited_platform) ?pre)"
    and "deleted_lines t = map msg_id (filter (deletable limited_platform) ?pre)"
    using rate_limit_aborts_run [OF e p nf c nrl rl] by blast
  then have "purger_main example_env limited_platform [Ready] ?conv
        = Some (t @ [Delete 1,
                     ConsoleError (ErrorMessage (lit ''Failed to delete messages: Rate limit exceeded'')),
                     Destroy, Exit 3], conv')
      \<and> delete_calls t = [3] \<and> deleted_lines t = [3]"
    unfolding b d by simp
  then show ?thesis using e nf rl by blast
qed

lemma example_rate_limited_purge:
  "deleteBotMessagesFromDM limited_platform u
     (initial_state [\<lparr>msg_id = 2, author_id = 7\<rparr>, \<lparr>msg_id = 1, author_id = 7\<rparr>])
     = Some (Inl (Error (lit ''Failed to delete messages: Rate limit exceeded'')),
             \<lparr>messagesDeleted = 1, lastMessageId = None,
              history = [\<lparr>msg_id = 1, author_id = 7\<rparr>],
              trace = [UsersFetch u, CreateDM, Fetch 50 None, Delete 2,
                       ConsoleLog (DeletedMessageID 2), Delay 1000, Delete 1]\<rparr>)"
  apply (simp add: deleteBotMessagesFromDM_def limited_platform_def example_platform_def
      initial_state_def emit_def)
  apply (subst while_loop.simps, simp add: run_simps failed_to_delete_def lit_def)
  done

text \<open>
  C3, as stated, fails where it speaks of a reported count. On a conversation of two bot
  messages of which the second, older one is rate limited, the run deletes the first,
  aborts on the second and exits with code 3, as claimed; but \<open>deleteBotMessagesFromDM\<close>
  returns the error and no count, and the output of the run has no line with a count: the
  one deletion shows only in its \<^verbatim>\<open>Deleted message ID\<close> line.
\<close>

theorem rate_limit_abort_reports_no_count:
  "deleteBotMessagesFromDM limited_platform None
     (initial_state [\<lparr>msg_id = 2, author_id = 7\<rparr>, \<lparr>msg_id = 1, author_id = 7\<rparr>])
     = Some (Inl (Error (lit ''Failed to delete messages: Rate limit exceeded'')),
             \<lparr>messagesDeleted = 1, lastMessageId = None,
              history = [\<lparr>msg_id = 1, author_id = 7\<rparr>],
              trace = [UsersFetch None, CreateDM, Fetch 50 None, Delete 2,
                       ConsoleLog (DeletedMessageID 2), Delay 1000, Delete 1]\<rparr>)
   \<and> purger_main example_env limited_platform [Ready]
        [\<lparr>msg_id = 2, author_id = 7\<rparr>, \<lparr>msg_id = 1, author_id = 7\<rparr>]
     = Some ([CreateClient, Login (Some (lit ''token'')), ConsoleLog LoggedInAs,
              UsersFetch (Some (lit ''42'')), CreateDM, Fetch 50 None, Delete 2,
              ConsoleLog (DeletedMessageID 2), Delay 1000, Delete 1,
              ConsoleError (ErrorMessage (lit ''Failed to delete messages: Rate limit exceeded'')),
              Destroy, Exit 3],
             [\<lparr>msg_id = 1, author_id = 7\<rparr>])"
proof
  show "deleteBotMessagesFromDM limited_platform None
     (initial_state [\<lparr>msg_id = 2, author_id = 7\<rparr>, \<lparr>msg_id = 1, author_id = 7\<rparr>])
     = Some (Inl (Error (lit ''Failed to delete messages: Rate limit exceeded'')),
             \<lparr>messagesDeleted = 1, lastMessageId = None,
              history = [\<lparr>msg_id = 1, author_id = 7\<rparr>],
              trace = [UsersFetch None, CreateDM, Fetch 50 None, Delete 2,
                       ConsoleLog (DeletedMessageID 2), Delay 1000, Delete 1]\<rparr>)"
    by (rule example_rate_limited_purge)
  have h: "purger_handler limited_platform example_env
        [\<lparr>msg_id = 2, author_id = 7\<rparr>, \<lparr>msg_id = 1, author_id = 7\<rparr>]
      = Some ([ConsoleLog LoggedInAs, UsersFetch (example_env DM_USER_ID), CreateDM,
               Fetch 50 None, Delete 2, ConsoleLog (DeletedMessageID 2), Delay 1000, Delete 1,
               ConsoleError (ErrorMessage (lit ''Failed to delete messages: Rate limit exceeded'')),
               Destroy], PC_RATE_LIMIT)"
    unfolding purger_handler_def example_rate_limited_purge using rate_limit_exit by simp
  have e: "example_env BOT_TOKEN = Some (lit ''token'')"
    "example_env DM_USER_ID = Some (lit ''42'')"
    by (simp_all add: example_env_def lit_def)
  show "purger_main example_env limited_platform [Ready]
        [\<lparr>msg_id = 2, author_id = 7\<rparr>, \<lparr>msg_id = 1, author_id = 7\<rparr>]
     = Some ([CreateClient, Login (Some (lit ''token'')), ConsoleLog LoggedInAs,
              UsersFetch (Some (lit ''42'')), CreateDM, Fetch 50 None, Delete 2,
              ConsoleLog (DeletedMessageID 2), Delay 1000, Delete 1,
              ConsoleError (ErrorMessage (lit ''Failed to delete messages: Rate limit exceeded'')),
              Destroy, Exit 3],
             [\<lparr>msg_id = 1, author_id = 7\<rparr>])"
    unfolding purger_main_def example_env_valid h
    by (simp add: undisturbed_run purger_program_def e PC_RATE_LIMIT_def left_behind_def
        limited_platform_def example_platform_def)
qed

section \<open>Teardown of the client\<close>













































end
